theory Spec2Isabelle
  imports Complex_Main
begin

section \<open>Synthetic activity-timeline generator (generate_data.py)\<close>

text \<open>
  A shallow embedding of \<^verbatim>\<open>sj-collector/test-data/generate_data.py\<close>.

  Conventions of the embedding.
  \<^item> A \<^verbatim>\<open>datetime\<close> is an \<open>int\<close>: whole seconds on the (naive) time line. Every
    datetime the generator builds comes from \<^verbatim>\<open>strptime\<close> with minute resolution plus
    \<^verbatim>\<open>timedelta\<close>s of whole seconds or minutes, so no sub-second part ever occurs.
  \<^item> For two datetimes \<open>a\<close>, \<open>b\<close>, \<^verbatim>\<open>(a - b).seconds\<close> is the seconds \<^emph>\<open>component\<close> of the
    normalised timedelta, i.e. \<open>(a - b) mod 86400\<close>, while \<^verbatim>\<open>(a - b).total_seconds()\<close> is
    \<open>a - b\<close>.
  \<^item> The global \<^verbatim>\<open>random\<close> module is an explicit generator state that every drawing
    function takes and returns. The state is the list of raw draws still to come (a
    finite list, followed by zeros); each primitive maps the next raw draw onto its own
    range, so every outcome the primitive can produce is produced by some raw draw.
  \<^item> An exception is a value \<open>Inl e\<close> of the result type \<open>py_error + 'a\<close>.
\<close>

subsection \<open>Errors and the random source\<close>

datatype py_error = ValueError | IndexError

type_synonym rng = "nat list"

fun next_raw :: "rng \<Rightarrow> nat \<times> rng" where
  "next_raw [] = (0, [])"
| "next_raw (r # g) = (r, g)"

text \<open>\<^verbatim>\<open>random.randint(a, b)\<close>: raises \<^verbatim>\<open>ValueError\<close> on the empty range \<open>b < a\<close>.\<close>

definition randint :: "int \<Rightarrow> int \<Rightarrow> rng \<Rightarrow> py_error + (int \<times> rng)" where
  "randint a b g =
     (if b < a then Inl ValueError
      else (case next_raw g of (r, g') \<Rightarrow> Inr (a + int r mod (b - a + 1), g')))"

text \<open>\<^verbatim>\<open>random.randint(*pair)\<close> on a two-element profile range.\<close>

definition randint_range :: "int \<times> int \<Rightarrow> rng \<Rightarrow> py_error + (int \<times> rng)" where
  "randint_range ab g = randint (fst ab) (snd ab) g"

text \<open>\<^verbatim>\<open>random.choice(seq)\<close>: raises \<^verbatim>\<open>IndexError\<close> on an empty sequence.\<close>

definition choice :: "'a list \<Rightarrow> rng \<Rightarrow> py_error + ('a \<times> rng)" where
  "choice xs g =
     (if xs = [] then Inl IndexError
      else (case next_raw g of (r, g') \<Rightarrow> Inr (xs ! (r mod length xs), g')))"

text \<open>
  \<^verbatim>\<open>random.choices(population, weights=weights)[0]\<close>. The library accumulates the weights,
  raises \<^verbatim>\<open>ValueError\<close> when their number differs from the size of the population, reads
  the last cumulative weight (\<^verbatim>\<open>IndexError\<close> on an empty list), raises \<^verbatim>\<open>ValueError\<close> when
  the total is not positive, and otherwise bisects the cumulative weights at
  \<^verbatim>\<open>random() * total\<close>.
\<close>

fun pick_index :: "nat list \<Rightarrow> nat \<Rightarrow> nat" where
  "pick_index [] x = 0"
| "pick_index (w # ws) x = (if x < w then 0 else Suc (pick_index ws (x - w)))"

definition choices :: "'a list \<Rightarrow> nat list \<Rightarrow> rng \<Rightarrow> py_error + ('a \<times> rng)" where
  "choices population weights g =
     (if length weights \<noteq> length population then Inl ValueError
      else if weights = [] then Inl IndexError
      else if sum_list weights = 0 then Inl ValueError
      else (case next_raw g of (r, g') \<Rightarrow>
              Inr (population ! pick_index weights (r mod sum_list weights), g')))"

text \<open>\<^verbatim>\<open>random.random()\<close>, a value in \<open>[0, 1)\<close>.\<close>

definition random_unit :: "rng \<Rightarrow> rat \<times> rng" where
  "random_unit g = (case next_raw g of (r, g') \<Rightarrow> (of_nat (r mod 1000000) / 1000000, g'))"

subsection \<open>Data model\<close>

type_synonym timestamp = int

text \<open>A wall-clock time \<^verbatim>\<open>'HH:MM'\<close> of the profile, as (hour, minute).\<close>

type_synonym clock = "int \<times> int"

text \<open>A calendar date: its midnight on the time line and \<^verbatim>\<open>date.weekday()\<close> (Monday is 0).\<close>

record date =
  midnight :: timestamp
  weekday :: nat

record work_hours =
  wh_start :: clock
  wh_end :: clock
  variance_minutes :: int

record day_schedule =
  ds_start :: clock
  ds_end :: clock

record weekend_schedule =
  saturday :: "day_schedule option"
  sunday :: "day_schedule option"

record afk_behavior =
  lunch_minutes :: "int \<times> int"
  coffee_breaks :: "int \<times> int"
  break_duration_minutes :: "int \<times> int"

record apps =
  productive :: "string list"
  neutral :: "string list"
  unproductive :: "string list"

record user_profile =
  username :: string
  hostnames :: "string list"
  work_hours :: work_hours
  weekend_activity :: bool
  weekend_sched :: weekend_schedule
  afk_behavior :: afk_behavior
  apps :: apps
  app_switches_per_day :: "int \<times> int"

record work_session =
  s_start :: timestamp
  s_end :: timestamp
  s_is_weekend :: bool

datatype break_type = Lunch | Coffee

record break_interval =
  b_start :: timestamp
  b_end :: timestamp
  b_type :: break_type

record activity =
  app :: string
  title :: string
  duration :: int
  timestamp :: timestamp

datatype presence = Active | Idle | Afk

record afk_status =
  status :: presence
  afk_duration :: int
  afk_timestamp :: timestamp

record daily_metric =
  active_seconds :: int
  idle_seconds :: int
  afk_seconds :: int
  app_switches :: nat
  utilization_ratio :: rat
  dm_timestamp :: timestamp

subsection \<open>Helper functions\<close>

definition is_weekend :: "date \<Rightarrow> bool" where
  "is_weekend d = (weekday d \<ge> 5)"

text \<open>\<^verbatim>\<open>datetime.strptime(f"{date.date()} {hhmm}", '%Y-%m-%d %H:%M')\<close>.\<close>

definition at_clock :: "date \<Rightarrow> clock \<Rightarrow> timestamp" where
  "at_clock d c = midnight d + 3600 * fst c + 60 * snd c"








subsection \<open>Window titles\<close>

definition WINDOW_TITLES :: "(string \<times> string list) list" where
  "WINDOW_TITLES =
    [(''VSCode'', [''main.go - VSCode'', ''api.py - VSCode'', ''README.md - VSCode'',
                   ''config.json - VSCode'', ''test_utils.py - VSCode'', ''server.js - VSCode'']),
     (''Terminal'', [''Terminal'', ''bash'', ''npm run dev'', ''git status'', ''docker ps'']),
     (''Chrome'', [''Gmail - Chrome'', ''Google Search - Chrome'', ''Stack Overflow - Chrome'',
                   ''GitHub - Chrome'', ''Documentation - Chrome'', ''AWS Console - Chrome'']),
     (''Slack'', [''#general - Slack'', ''#engineering - Slack'', ''#random - Slack'',
                  ''Direct Messages - Slack'']),
     (''Outlook'', [''Inbox - Outlook'', ''Calendar - Outlook'', ''Meeting Request - Outlook'']),
     (''Excel'', [''Budget 2025.xlsx - Excel'', ''Report.xlsx - Excel'', ''Data.xlsx - Excel'']),
     (''Xero'', [''Dashboard - Xero'', ''Invoices - Xero'', ''Reports - Xero'']),
     (''Teams'', [''Team Chat - Teams'', ''Meeting - Teams'', ''Files - Teams'']),
     (''DocuSign'', [''Documents - DocuSign'', ''Sign Document - DocuSign'']),
     (''Salesforce'', [''Leads - Salesforce'', ''Opportunities - Salesforce'',
                       ''Dashboard - Salesforce'']),
     (''Zoom'', [''Meeting - Zoom'', ''Zoom Call'']),
     (''Calendar'', [''Calendar'', ''Week View - Calendar'']),
     (''Zendesk'', [''Tickets - Zendesk'', ''Customer Support - Zendesk'']),
     (''Figma'', [''Design Project - Figma'', ''Wireframes - Figma'', ''Prototype - Figma'']),
     (''Photoshop'', [''Banner Design - Photoshop'', ''Logo - Photoshop'']),
     (''Reddit'', [''Reddit - Front Page'', ''r/programming - Reddit'']),
     (''YouTube'', [''YouTube'', ''Watch - YouTube'']),
     (''Twitter'', [''Twitter'', ''Home - Twitter'']),
     (''Spotify'', [''Spotify - Now Playing'', ''Playlists - Spotify'']),
     (''Instagram'', [''Instagram'', ''Feed - Instagram''])]"

definition get_window_title :: "string \<Rightarrow> rng \<Rightarrow> py_error + (string \<times> rng)" where
  "get_window_title a g =
     (case map_of WINDOW_TITLES a of
        Some titles \<Rightarrow> choice titles g
      | None \<Rightarrow> Inr (a, g))"

subsection \<open>Work sessions\<close>

text \<open>
  \<^verbatim>\<open>generate_work_session\<close> (lines 185-215). The result \<open>None\<close> is Python's \<^verbatim>\<open>None\<close>: no
  work on that day. A missing or empty sub-schedule of the weekend day is \<open>None\<close> in the
  \<open>weekend_schedule\<close> record.
\<close>

definition generate_work_session ::
  "user_profile \<Rightarrow> date \<Rightarrow> string \<Rightarrow> rng \<Rightarrow> py_error + (work_session option \<times> rng)" where
  "generate_work_session user_profile d hostname g =
     (if is_weekend d then
        (if \<not> weekend_activity user_profile then Inr (None, g)
         else
           (case (if weekday d = 5 then saturday (weekend_sched user_profile)
                  else sunday (weekend_sched user_profile)) of
              None \<Rightarrow> Inr (None, g)
            | Some ws \<Rightarrow>
                Inr (Some \<lparr>s_start = at_clock d (ds_start ws),
                           s_end = at_clock d (ds_end ws),
                           s_is_weekend = True\<rparr>, g)))
      else
        (let wh = work_hours user_profile;
             variance = variance_minutes wh
         in case randint (- variance) variance g of
              Inl e \<Rightarrow> Inl e
            | Inr (start_variance, g1) \<Rightarrow>
                (case randint (- variance) variance g1 of
                   Inl e \<Rightarrow> Inl e
                 | Inr (end_variance, g2) \<Rightarrow>
                     Inr (Some \<lparr>s_start = at_clock d (wh_start wh) + 60 * start_variance,
                                s_end = at_clock d (wh_end wh) + 60 * end_variance,
                                s_is_weekend = False\<rparr>, g2))))"

subsection \<open>Breaks\<close>

text \<open>\<^verbatim>\<open>(work_session['end'] - work_session['start']).seconds\<close>.\<close>

definition work_duration :: "work_session \<Rightarrow> int" where
  "work_duration ws = (s_end ws - s_start ws) mod 86400"

text \<open>
  The overlap test of lines 245-249: the candidate \<open>[break_start, break_end)\<close> against
  every break accepted so far.
\<close>

definition overlaps_existing :: "timestamp \<Rightarrow> timestamp \<Rightarrow> break_interval list \<Rightarrow> bool" where
  "overlaps_existing break_start break_end breaks =
     list_ex (\<lambda>existing. break_start < b_end existing \<and> break_end > b_start existing) breaks"

text \<open>
  The \<^verbatim>\<open>while attempts < 10\<close> loop (lines 240-258); the first argument is the number of
  attempts left. A failed \<^verbatim>\<open>randint\<close> leaves the function with the exception.
\<close>

fun place_break ::
  "nat \<Rightarrow> int \<Rightarrow> int \<Rightarrow> timestamp \<Rightarrow> break_interval list \<Rightarrow> rng
     \<Rightarrow> py_error + (break_interval list \<times> rng)" where
  "place_break 0 wd break_duration start breaks g = Inr (breaks, g)"
| "place_break (Suc n) wd break_duration start breaks g =
     (case randint 0 (wd - break_duration * 60) g of
        Inl e \<Rightarrow> Inl e
      | Inr (break_offset, g1) \<Rightarrow>
          (let break_start = start + break_offset;
               break_end = break_start + 60 * break_duration
           in if overlaps_existing break_start break_end breaks
              then place_break n wd break_duration start breaks g1
              else Inr (breaks @ [\<lparr>b_start = break_start, b_end = break_end,
                                    b_type = Coffee\<rparr>], g1)))"

text \<open>One pass of \<^verbatim>\<open>for _ in range(num_breaks)\<close> (lines 236-258).\<close>

definition coffee_break ::
  "afk_behavior \<Rightarrow> int \<Rightarrow> timestamp \<Rightarrow> break_interval list \<Rightarrow> rng
     \<Rightarrow> py_error + (break_interval list \<times> rng)" where
  "coffee_break afk wd start breaks g =
     (case randint_range (break_duration_minutes afk) g of
        Inl e \<Rightarrow> Inl e
      | Inr (break_duration, g1) \<Rightarrow> place_break 10 wd break_duration start breaks g1)"

fun coffee_loop ::
  "nat \<Rightarrow> afk_behavior \<Rightarrow> int \<Rightarrow> timestamp \<Rightarrow> break_interval list \<Rightarrow> rng
     \<Rightarrow> py_error + (break_interval list \<times> rng)" where
  "coffee_loop 0 afk wd start breaks g = Inr (breaks, g)"
| "coffee_loop (Suc n) afk wd start breaks g =
     (case coffee_break afk wd start breaks g of
        Inl e \<Rightarrow> Inl e
      | Inr (breaks', g1) \<Rightarrow> coffee_loop n afk wd start breaks' g1)"

text \<open>
  The lunch break (lines 222-232). \<^verbatim>\<open>int(work_duration * 0.3)\<close> and
  \<^verbatim>\<open>int(work_duration * 0.5)\<close> are taken on a \<open>work_duration\<close> between 14401 and 86399,
  where the truncated floating-point products are \<open>3 * work_duration div 10\<close> and
  \<open>work_duration div 2\<close>.
\<close>

definition lunch_break ::
  "afk_behavior \<Rightarrow> work_session \<Rightarrow> rng \<Rightarrow> py_error + (break_interval list \<times> rng)" where
  "lunch_break afk ws g =
     (let wd = work_duration ws in
      if wd > 4 * 3600 then
        (case randint_range (lunch_minutes afk) g of
           Inl e \<Rightarrow> Inl e
         | Inr (lunch_duration, g1) \<Rightarrow>
             (case randint (3 * wd div 10) (wd div 2) g1 of
                Inl e \<Rightarrow> Inl e
              | Inr (lunch_start_offset, g2) \<Rightarrow>
                  (let lunch_start = s_start ws + lunch_start_offset
                   in Inr ([\<lparr>b_start = lunch_start,
                              b_end = lunch_start + 60 * lunch_duration,
                              b_type = Lunch\<rparr>], g2))))
      else Inr ([], g))"

text \<open>
  \<^verbatim>\<open>generate_breaks\<close> (lines 217-262), on the \<^verbatim>\<open>afk_behavior\<close> entry of the profile.
  \<^verbatim>\<open>range(num_breaks)\<close> is empty for a negative count; \<^verbatim>\<open>list.sort\<close> is stable, as
  \<open>sort_key\<close> is.
\<close>

definition generate_breaks ::
  "afk_behavior \<Rightarrow> work_session \<Rightarrow> rng \<Rightarrow> py_error + (break_interval list \<times> rng)" where
  "generate_breaks afk ws g =
     (case lunch_break afk ws g of
        Inl e \<Rightarrow> Inl e
      | Inr (breaks, g1) \<Rightarrow>
          (case randint_range (coffee_breaks afk) g1 of
             Inl e \<Rightarrow> Inl e
           | Inr (num_breaks, g2) \<Rightarrow>
               (case coffee_loop (nat num_breaks) afk (work_duration ws) (s_start ws) breaks g2 of
                  Inl e \<Rightarrow> Inl e
                | Inr (breaks', g3) \<Rightarrow> Inr (sort_key b_start breaks', g3))))"

subsection \<open>Window activity\<close>

text \<open>The first break that contains the cursor (lines 291-296).\<close>

fun find_in_break :: "timestamp \<Rightarrow> break_interval list \<Rightarrow> break_interval option" where
  "find_in_break t [] = None"
| "find_in_break t (brk # breaks) =
     (if t \<ge> b_start brk \<and> t < b_end brk then Some brk else find_in_break t breaks)"

text \<open>The start of the first break of the list that starts after the cursor (lines 314-318).\<close>

fun next_break_time :: "timestamp \<Rightarrow> break_interval list \<Rightarrow> timestamp option" where
  "next_break_time t [] = None"
| "next_break_time t (brk # breaks) =
     (if b_start brk > t then Some (b_start brk) else next_break_time t breaks)"

text \<open>\<^verbatim>\<open>sum(app_switches_range) / 2\<close>.\<close>

definition avg_switches :: "user_profile \<Rightarrow> rat" where
  "avg_switches user_profile =
     of_int (fst (app_switches_per_day user_profile) + snd (app_switches_per_day user_profile)) / 2"

definition draw_duration :: "user_profile \<Rightarrow> rng \<Rightarrow> py_error + (int \<times> rng)" where
  "draw_duration user_profile g =
     (if avg_switches user_profile > 80 then randint 30 180 g
      else if avg_switches user_profile > 50 then randint 60 300 g
      else randint 180 900 g)"

text \<open>Lines 313-323: the drawn duration clipped to the session end and to the next break.\<close>

definition clip_duration :: "int \<Rightarrow> timestamp \<Rightarrow> timestamp \<Rightarrow> break_interval list \<Rightarrow> int" where
  "clip_duration d current_time end_time breaks =
     (let remaining_time = (end_time - current_time) mod 86400;
          remaining_time' =
            (case next_break_time current_time breaks of
               None \<Rightarrow> remaining_time
             | Some nbt \<Rightarrow> min remaining_time ((nbt - current_time) mod 86400))
      in min d remaining_time')"

text \<open>Lines 335-338: after an event, the current application may change.\<close>

definition maybe_switch ::
  "user_profile \<Rightarrow> string list \<Rightarrow> nat list \<Rightarrow> string \<Rightarrow> rng \<Rightarrow> py_error + (string \<times> rng)" where
  "maybe_switch user_profile all_apps app_weights current_app g =
     (case random_unit g of
        (x, g1) \<Rightarrow>
          if x < min (7 / 10) (avg_switches user_profile / 100)
          then choices all_apps app_weights g1
          else Inr (current_app, g1))"

text \<open>
  The \<^verbatim>\<open>while current_time < end_time\<close> loop (lines 289-338). The loop has no bound of
  its own: the result \<open>None\<close> is a run that never leaves it.
\<close>

partial_function (option) activity_loop ::
  "user_profile \<Rightarrow> string list \<Rightarrow> nat list \<Rightarrow> timestamp \<Rightarrow> break_interval list
     \<Rightarrow> timestamp \<Rightarrow> string \<Rightarrow> activity list \<Rightarrow> rng
     \<Rightarrow> (py_error + (activity list \<times> rng)) option" where
  "activity_loop user_profile all_apps app_weights end_time breaks
                 current_time current_app activities g =
     (if \<not> current_time < end_time then Some (Inr (activities, g))
      else
        (case find_in_break current_time breaks of
           Some brk \<Rightarrow>
             activity_loop user_profile all_apps app_weights end_time breaks
               (b_end brk) current_app activities g
         | None \<Rightarrow>
             (case draw_duration user_profile g of
                Inl e \<Rightarrow> Some (Inl e)
              | Inr (d, g1) \<Rightarrow>
                  (if clip_duration d current_time end_time breaks > 0 then
                     (case get_window_title current_app g1 of
                        Inl e \<Rightarrow> Some (Inl e)
                      | Inr (ttl, g2) \<Rightarrow>
                          (case maybe_switch user_profile all_apps app_weights current_app g2 of
                             Inl e \<Rightarrow> Some (Inl e)
                           | Inr (app', g3) \<Rightarrow>
                               activity_loop user_profile all_apps app_weights end_time breaks
                                 (current_time + clip_duration d current_time end_time breaks)
                                 app'
                                 (activities @
                                    [\<lparr>app = current_app, title = ttl,
                                      duration = clip_duration d current_time end_time breaks,
                                      timestamp = current_time\<rparr>])
                                 g3))
                   else
                     activity_loop user_profile all_apps app_weights end_time breaks
                       current_time current_app activities g1))))"

text \<open>\<^verbatim>\<open>generate_window_activities\<close> (lines 264-340).\<close>

definition all_apps_of :: "user_profile \<Rightarrow> string list" where
  "all_apps_of user_profile =
     (let all_apps = productive (apps user_profile) @ neutral (apps user_profile)
                     @ unproductive (apps user_profile)
      in if all_apps = [] then [''Chrome''] else all_apps)"

definition app_weights_of :: "user_profile \<Rightarrow> nat list" where
  "app_weights_of user_profile =
     replicate (length (productive (apps user_profile))) 3
     @ replicate (length (neutral (apps user_profile))) 2
     @ replicate (length (unproductive (apps user_profile))) 1"

definition generate_window_activities ::
  "user_profile \<Rightarrow> work_session \<Rightarrow> break_interval list \<Rightarrow> rng
     \<Rightarrow> (py_error + (activity list \<times> rng)) option" where
  "generate_window_activities user_profile ws breaks g =
     (case choices (all_apps_of user_profile) (app_weights_of user_profile) g of
        Inl e \<Rightarrow> Some (Inl e)
      | Inr (current_app, g1) \<Rightarrow>
          activity_loop user_profile (all_apps_of user_profile) (app_weights_of user_profile)
            (s_end ws) breaks (s_start ws) current_app [] g1)"

subsection \<open>Presence\<close>

datatype segment_type = Work | Break break_type

record segment =
  seg_start :: timestamp
  seg_end :: timestamp
  seg_type :: segment_type

text \<open>
  Lines 354-364: the work segments between the breaks, interleaved with the breaks. The
  first argument is \<^verbatim>\<open>last_end\<close>.
\<close>

fun work_segments :: "timestamp \<Rightarrow> timestamp \<Rightarrow> break_interval list \<Rightarrow> segment list" where
  "work_segments last_end end_time [] =
     (if last_end < end_time
      then [\<lparr>seg_start = last_end, seg_end = end_time, seg_type = Work\<rparr>]
      else [])"
| "work_segments last_end end_time (brk # breaks) =
     (if b_start brk > last_end
      then [\<lparr>seg_start = last_end, seg_end = b_start brk, seg_type = Work\<rparr>]
      else [])
     @ \<lparr>seg_start = b_start brk, seg_end = b_end brk, seg_type = Break (b_type brk)\<rparr>
     # work_segments (b_end brk) end_time breaks"

text \<open>Lines 367-399: the status events of one segment.\<close>

definition segment_statuses :: "segment \<Rightarrow> afk_status list" where
  "segment_statuses sg =
     (let d = seg_end sg - seg_start sg in
      case seg_type sg of
        Work \<Rightarrow>
          (if d > 0 then [\<lparr>status = Active, afk_duration = d, afk_timestamp = seg_start sg\<rparr>]
           else [])
      | Break Lunch \<Rightarrow> [\<lparr>status = Afk, afk_duration = d, afk_timestamp = seg_start sg\<rparr>]
      | Break Coffee \<Rightarrow>
          (if d < 600 then [\<lparr>status = Idle, afk_duration = d, afk_timestamp = seg_start sg\<rparr>]
           else [\<lparr>status = Afk, afk_duration = d, afk_timestamp = seg_start sg\<rparr>]))"

text \<open>\<^verbatim>\<open>generate_afk_statuses\<close> (lines 342-401); the activities are not read.\<close>

definition generate_afk_statuses ::
  "work_session \<Rightarrow> break_interval list \<Rightarrow> activity list \<Rightarrow> afk_status list" where
  "generate_afk_statuses ws breaks activities =
     concat (map segment_statuses (work_segments (s_start ws) (s_end ws) breaks))"

subsection \<open>Daily metrics\<close>

text \<open>
  \<^verbatim>\<open>round(x, 4)\<close>: to the closest multiple of \<open>1/10000\<close>, a tie going to the even multiple.
  The quotient is taken in the rationals; the binary representation error of the
  floating-point quotient is not modelled.
\<close>

definition round_half_even :: "rat \<Rightarrow> int" where
  "round_half_even x =
     (let f = \<lfloor>x\<rfloor>; r = x - of_int f
      in if r < 1 / 2 then f
         else if r > 1 / 2 then f + 1
         else if even f then f else f + 1)"

definition round4 :: "rat \<Rightarrow> rat" where
  "round4 x = of_int (round_half_even (x * 10000)) / 10000"

definition status_seconds :: "presence \<Rightarrow> afk_status list \<Rightarrow> int" where
  "status_seconds st afk_statuses =
     sum_list (map afk_duration (filter (\<lambda>s. status s = st) afk_statuses))"

text \<open>
  Lines 434-439. \<^verbatim>\<open>last_app\<close> is \<open>None\<close> before the first event; \<^verbatim>\<open>if last_app and ...\<close>
  is also false on an empty application name.
\<close>

fun count_switches :: "string option \<Rightarrow> activity list \<Rightarrow> nat" where
  "count_switches last_app [] = 0"
| "count_switches last_app (a # activities) =
     (if last_app \<noteq> None \<and> last_app \<noteq> Some [] \<and> last_app \<noteq> Some (app a) then 1 else 0)
     + count_switches (Some (app a)) activities"

text \<open>\<^verbatim>\<open>calculate_daily_metrics\<close> (lines 424-452).\<close>

definition calculate_daily_metrics ::
  "date \<Rightarrow> afk_status list \<Rightarrow> activity list \<Rightarrow> daily_metric" where
  "calculate_daily_metrics d afk_statuses activities =
     (let active = status_seconds Active afk_statuses;
          idle = status_seconds Idle afk_statuses;
          afk = status_seconds Afk afk_statuses;
          total_seconds = active + idle + afk;
          ratio = (if total_seconds > 0 then of_int active / of_int total_seconds else 0)
      in \<lparr>active_seconds = active,
          idle_seconds = idle,
          afk_seconds = afk,
          app_switches = count_switches None activities,
          utilization_ratio = round4 ratio,
          dm_timestamp = midnight d + 86399\<rparr>)"

subsection \<open>One user on one date\<close>

record day_records =
  day_breaks :: "break_interval list"
  day_activities :: "activity list"
  day_statuses :: "afk_status list"
  day_metric :: daily_metric

text \<open>
  The body of the loop over the dates in \<^verbatim>\<open>generate_all_data\<close> (lines 480-502), without
  the hourly application usage, which nothing else reads. The value \<open>None\<close> inside the
  result is a day without work.
\<close>

definition generate_user_date ::
  "user_profile \<Rightarrow> date \<Rightarrow> rng \<Rightarrow> (py_error + (day_records option \<times> rng)) option" where
  "generate_user_date user_profile d g =
     (case choice (hostnames user_profile) g of
        Inl e \<Rightarrow> Some (Inl e)
      | Inr (hostname, g1) \<Rightarrow>
          (case generate_work_session user_profile d hostname g1 of
             Inl e \<Rightarrow> Some (Inl e)
           | Inr (None, g2) \<Rightarrow> Some (Inr (None, g2))
           | Inr (Some ws, g2) \<Rightarrow>
               (case generate_breaks (afk_behavior user_profile) ws g2 of
                  Inl e \<Rightarrow> Some (Inl e)
                | Inr (breaks, g3) \<Rightarrow>
                    (case generate_window_activities user_profile ws breaks g3 of
                       None \<Rightarrow> None
                     | Some (Inl e) \<Rightarrow> Some (Inl e)
                     | Some (Inr (activities, g4)) \<Rightarrow>
                         (let statuses = generate_afk_statuses ws breaks activities
                          in Some (Inr (Some \<lparr>day_breaks = breaks,
                                               day_activities = activities,
                                               day_statuses = statuses,
                                               day_metric =
                                                 calculate_daily_metrics d statuses activities\<rparr>,
                                        g4)))))))"

section \<open>Specification-side definitions and sample inputs\<close>

text \<open>
  Section 4.1 of the specification, as worded: whenever a schedule applies to the date
  (the weekday hours, or the matching sub-schedule of a weekend day), an offset in
  minutes is drawn for the start and another for the end.
\<close>

definition applicable_schedule :: "user_profile \<Rightarrow> date \<Rightarrow> (clock \<times> clock) option" where
  "applicable_schedule p d =
     (if is_weekend d then
        (if \<not> weekend_activity p then None
         else
           (case (if weekday d = 5 then saturday (weekend_sched p)
                  else sunday (weekend_sched p)) of
              None \<Rightarrow> None
            | Some ws \<Rightarrow> Some (ds_start ws, ds_end ws)))
      else Some (wh_start (work_hours p), wh_end (work_hours p)))"

definition spec_work_session ::
  "user_profile \<Rightarrow> date \<Rightarrow> rng \<Rightarrow> py_error + (work_session option \<times> rng)" where
  "spec_work_session p d g =
     (case applicable_schedule p d of
        None \<Rightarrow> Inr (None, g)
      | Some (c_start, c_end) \<Rightarrow>
          (let v = variance_minutes (work_hours p) in
           case randint (- v) v g of
             Inl e \<Rightarrow> Inl e
           | Inr (o1, g1) \<Rightarrow>
               (case randint (- v) v g1 of
                  Inl e \<Rightarrow> Inl e
                | Inr (o2, g2) \<Rightarrow>
                    Inr (Some \<lparr>s_start = at_clock d c_start + 60 * o1,
                               s_end = at_clock d c_end + 60 * o2,
                               s_is_weekend = is_weekend d\<rparr>, g2))))"

text \<open>A profile with a Saturday schedule and a variance of 30 minutes.\<close>

definition example_profile :: user_profile where
  "example_profile =
     \<lparr>username = ''alice'', hostnames = [''alice-laptop''],
      work_hours = \<lparr>wh_start = (9, 0), wh_end = (17, 0), variance_minutes = 30\<rparr>,
      weekend_activity = True,
      weekend_sched =
        \<lparr>saturday = Some \<lparr>ds_start = (10, 0), ds_end = (14, 0)\<rparr>, sunday = None\<rparr>,
      afk_behavior =
        \<lparr>lunch_minutes = (30, 60), coffee_breaks = (1, 3), break_duration_minutes = (5, 15)\<rparr>,
      apps = \<lparr>productive = [''VSCode''], neutral = [''Slack''], unproductive = []\<rparr>,
      app_switches_per_day = (40, 80)\<rparr>"

definition monday :: date where
  "monday = \<lparr>midnight = 0, weekday = 0\<rparr>"

definition a_saturday :: date where
  "a_saturday = \<lparr>midnight = 432000, weekday = 5\<rparr>"

text \<open>
  The layout of a break list that the data model of the specification asks for: the
  breaks come in time order inside \<open>[lo, hi]\<close>, each starts no earlier than the one
  before it ends, and none ends before it starts.
\<close>

fun breaks_within :: "timestamp \<Rightarrow> timestamp \<Rightarrow> break_interval list \<Rightarrow> bool" where
  "breaks_within lo hi [] = (lo \<le> hi)"
| "breaks_within lo hi (b # bs) =
     (lo \<le> b_start b \<and> b_start b \<le> b_end b \<and> breaks_within (b_end b) hi bs)"

text \<open>A half-day profile whose lunch lasts four hours.\<close>

definition long_lunch_profile :: user_profile where
  "long_lunch_profile =
     \<lparr>username = ''bob'', hostnames = [''bob-desktop''],
      work_hours = \<lparr>wh_start = (9, 0), wh_end = (13, 30), variance_minutes = 0\<rparr>,
      weekend_activity = False,
      weekend_sched = \<lparr>saturday = None, sunday = None\<rparr>,
      afk_behavior =
        \<lparr>lunch_minutes = (240, 240), coffee_breaks = (0, 0), break_duration_minutes = (5, 15)\<rparr>,
      apps = \<lparr>productive = [''VSCode''], neutral = [], unproductive = []\<rparr>,
      app_switches_per_day = (0, 0)\<rparr>"

text \<open>A one-hour profile with one coffee break of zero minutes.\<close>

definition zero_break_profile :: user_profile where
  "zero_break_profile =
     \<lparr>username = ''carol'', hostnames = [''carol-laptop''],
      work_hours = \<lparr>wh_start = (9, 0), wh_end = (10, 0), variance_minutes = 0\<rparr>,
      weekend_activity = False,
      weekend_sched = \<lparr>saturday = None, sunday = None\<rparr>,
      afk_behavior =
        \<lparr>lunch_minutes = (30, 60), coffee_breaks = (1, 1), break_duration_minutes = (0, 0)\<rparr>,
      apps = \<lparr>productive = [''VSCode''], neutral = [], unproductive = []\<rparr>,
      app_switches_per_day = (0, 0)\<rparr>"



text \<open>
  The coffee-break durations (in minutes) that the passes of the loop of lines 236-258
  draw, in order, up to the pass that raises: an observer of \<open>coffee_loop\<close>, which
  reads the same draws.
\<close>

fun drawn_durations ::
  "nat \<Rightarrow> afk_behavior \<Rightarrow> int \<Rightarrow> timestamp \<Rightarrow> break_interval list \<Rightarrow> rng \<Rightarrow> int list" where
  "drawn_durations 0 afk wd start breaks g = []"
| "drawn_durations (Suc n) afk wd start breaks g =
     (case randint_range (break_duration_minutes afk) g of
        Inl e \<Rightarrow> []
      | Inr (break_duration, g1) \<Rightarrow>
          break_duration #
          (case place_break 10 wd break_duration start breaks g1 of
             Inl e \<Rightarrow> []
           | Inr (breaks', g2) \<Rightarrow> drawn_durations n afk wd start breaks' g2))"

text \<open>Two coffee breaks of ten minutes and a lunch of half an hour.\<close>

definition two_coffee_afk :: afk_behavior where
  "two_coffee_afk =
     \<lparr>lunch_minutes = (30, 30), coffee_breaks = (2, 2), break_duration_minutes = (10, 10)\<rparr>"

text \<open>One coffee break of ninety minutes.\<close>

definition long_coffee_afk :: afk_behavior where
  "long_coffee_afk =
     \<lparr>lunch_minutes = (30, 60), coffee_breaks = (1, 1), break_duration_minutes = (90, 90)\<rparr>"

definition full_day :: work_session where
  "full_day = \<lparr>s_start = 32400, s_end = 61200, s_is_weekend = False\<rparr>"

definition one_hour :: work_session where
  "one_hour = \<lparr>s_start = 32400, s_end = 36000, s_is_weekend = False\<rparr>"

text \<open>The seconds an event and a break occupy, as half-open intervals.\<close>

definition activity_span :: "activity \<Rightarrow> int set" where
  "activity_span a = {timestamp a ..< timestamp a + duration a}"

definition break_span :: "break_interval \<Rightarrow> int set" where
  "break_span b = {b_start b ..< b_end b}"

text \<open>
  Events in time order from \<open>lo\<close> on: each has a positive duration and starts no earlier
  than the one before it ends.
\<close>

fun events_chain :: "timestamp \<Rightarrow> activity list \<Rightarrow> bool" where
  "events_chain lo [] = True"
| "events_chain lo (a # as) =
     (lo \<le> timestamp a \<and> 0 < duration a \<and> events_chain (timestamp a + duration a) as)"

text \<open>Neither end of the break lies strictly inside the event.\<close>

definition no_boundary_inside :: "activity \<Rightarrow> break_interval \<Rightarrow> bool" where
  "no_boundary_inside a b =
     (\<not> (timestamp a < b_start b \<and> b_start b < timestamp a + duration a) \<and>
      \<not> (timestamp a < b_end b \<and> b_end b < timestamp a + duration a))"

text \<open>
  The events \<open>new\<close> fill \<open>[cur, e)\<close> outside the breaks: they are in time order, they
  occupy exactly the seconds of \<open>[cur, e)\<close> that belong to no break, and none of them
  has a break boundary strictly inside.
\<close>

definition covers ::
  "timestamp \<Rightarrow> timestamp \<Rightarrow> break_interval list \<Rightarrow> activity list \<Rightarrow> bool" where
  "covers cur e breaks new =
     (events_chain cur new \<and>
      (\<Union>a \<in> set new. activity_span a) = {cur..<e} - (\<Union>b \<in> set breaks. break_span b) \<and>
      (\<forall>a \<in> set new. \<forall>b \<in> set breaks. no_boundary_inside a b))"

text \<open>
  The scenario of section 8: hours 09:00-17:00, no variance, no weekend activity, a lunch
  of exactly 30 minutes, no coffee break, the single application Chrome.
\<close>

definition scenario_profile :: user_profile where
  "scenario_profile =
     \<lparr>username = ''dave'', hostnames = [''dave-pc''],
      work_hours = \<lparr>wh_start = (9, 0), wh_end = (17, 0), variance_minutes = 0\<rparr>,
      weekend_activity = False,
      weekend_sched = \<lparr>saturday = None, sunday = None\<rparr>,
      afk_behavior =
        \<lparr>lunch_minutes = (30, 30), coffee_breaks = (0, 0), break_duration_minutes = (5, 15)\<rparr>,
      apps = \<lparr>productive = [''Chrome''], neutral = [], unproductive = []\<rparr>,
      app_switches_per_day = (0, 0)\<rparr>"

text \<open>
  Raw draws for one day of the scenario: seven draws before the loop (host name, two
  offsets, lunch duration, lunch offset, coffee count, first application), then for each
  event a duration draw of 720 (an event of 900 seconds), a title draw and a switch draw.
\<close>

definition scenario_draws :: rng where
  "scenario_draws =
     [0, 0, 0, 0, 0, 0, 0, 720, 0, 0, 720, 0, 0, 720, 0, 0, 720, 0, 0, 720, 0, 0, 720,
      0, 0, 720, 0, 0, 720, 0, 0, 720, 0, 0, 720, 0, 0, 720, 0, 0, 720, 0, 0, 720, 0,
      0, 720, 0, 0, 720, 0, 0, 720, 0, 0, 720, 0, 0, 720, 0, 0, 720, 0, 0, 720, 0, 0,
      720, 0, 0, 720, 0, 0, 720, 0, 0, 720, 0, 0, 720, 0, 0, 720, 0, 0, 720, 0, 0,
      720, 0, 0, 720, 0, 0, 720, 0, 0, 720, 0, 0]"

text \<open>
  What the claims read off one generated day: the breaks, the total duration of the
  events, and the daily record.
\<close>

definition day_summary ::
  "(py_error + (day_records option \<times> rng)) option
     \<Rightarrow> (break_interval list \<times> int \<times> daily_metric) option" where
  "day_summary r =
     (case r of
        Some (Inr (Some out, g)) \<Rightarrow>
          Some (day_breaks out, sum_list (map duration (day_activities out)), day_metric out)
      | _ \<Rightarrow> None)"

section \<open>Properties\<close>

subsection \<open>Escaping\<close>











subsection \<open>The random source\<close>

lemma randint_ok:
  assumes "a \<le> b"
  shows "\<exists>r g'. randint a b g = Inr (r, g') \<and> a \<le> r \<and> r \<le> b"
proof -
  obtain x g' where n: "next_raw g = (x, g')" by (cases "next_raw g")
  have pos: "0 < b - a + 1" using assms by simp
  have h1: "0 \<le> int x mod (b - a + 1)" using pos by (rule pos_mod_sign)
  have h2: "int x mod (b - a + 1) < b - a + 1" using pos by (rule pos_mod_bound)
  have "randint a b g = Inr (a + int x mod (b - a + 1), g')"
    using assms n by (simp add: randint_def)
  moreover have "a \<le> a + int x mod (b - a + 1)" using h1 by linarith
  moreover have "a + int x mod (b - a + 1) \<le> b" using h2 by linarith
  ultimately show ?thesis by blast
qed

lemma randint_hit: "a \<le> x \<Longrightarrow> x \<le> b \<Longrightarrow> randint a b (nat (x - a) # g) = Inr (x, g)"
  by (simp add: randint_def)


lemma randint_empty: "b < a \<Longrightarrow> randint a b g = Inl ValueError"
  by (simp add: randint_def)

lemma randint_error: "randint a b g = Inl e \<Longrightarrow> e = ValueError \<and> b < a"
  by (auto simp: randint_def split: if_splits prod.splits)

subsection \<open>Work sessions\<close>

text \<open>
  Claim C4, as the specification words it, fails on a weekend day: the code takes the
  sub-schedule's times as they are and draws nothing, while the worded planner would
  draw two offsets (here both \<open>-30\<close> minutes, from the raw draws \<open>0\<close> and \<open>0\<close>).
\<close>

theorem weekend_session_has_no_offset:
  "generate_work_session example_profile a_saturday ''alice-laptop'' [0, 0]
     = Inr (Some \<lparr>s_start = 468000, s_end = 482400, s_is_weekend = True\<rparr>, [0, 0]) \<and>
   spec_work_session example_profile a_saturday [0, 0]
     = Inr (Some \<lparr>s_start = 466200, s_end = 480600, s_is_weekend = True\<rparr>, [])"
  by (simp add: generate_work_session_def spec_work_session_def applicable_schedule_def
      example_profile_def a_saturday_def is_weekend_def at_clock_def randint_def)

text \<open>
  Claim C4, amended. On a weekday with a non-negative variance \<open>v\<close> the session exists;
  its start is the schedule's start plus 60 times the first draw of
  \<open>randint (-v) v\<close> and its end is the schedule's end plus 60 times the second draw, both
  within \<open>[-v, v]\<close>, and every pair of offsets of that range is reached by some pair of
  raw draws. On a weekend day a session, when there is one, has exactly the times of the
  matching sub-schedule, and the random source is left untouched.
\<close>

theorem work_session_offsets:
  "(\<not> is_weekend d \<and> 0 \<le> variance_minutes (work_hours p) \<longrightarrow>
      (\<exists>o1 o2 g1 g2.
         randint (- variance_minutes (work_hours p)) (variance_minutes (work_hours p)) g
           = Inr (o1, g1) \<and>
         randint (- variance_minutes (work_hours p)) (variance_minutes (work_hours p)) g1
           = Inr (o2, g2) \<and>
         - variance_minutes (work_hours p) \<le> o1 \<and> o1 \<le> variance_minutes (work_hours p) \<and>
         - variance_minutes (work_hours p) \<le> o2 \<and> o2 \<le> variance_minutes (work_hours p) \<and>
         generate_work_session p d h g =
           Inr (Some \<lparr>s_start = at_clock d (wh_start (work_hours p)) + 60 * o1,
                      s_end = at_clock d (wh_end (work_hours p)) + 60 * o2,
                      s_is_weekend = False\<rparr>, g2))) \<and>
   (\<not> is_weekend d \<and>
    - variance_minutes (work_hours p) \<le> a \<and> a \<le> variance_minutes (work_hours p) \<and>
    - variance_minutes (work_hours p) \<le> b \<and> b \<le> variance_minutes (work_hours p) \<longrightarrow>
      generate_work_session p d h
        (nat (a + variance_minutes (work_hours p))
         # nat (b + variance_minutes (work_hours p)) # g) =
      Inr (Some \<lparr>s_start = at_clock d (wh_start (work_hours p)) + 60 * a,
                 s_end = at_clock d (wh_end (work_hours p)) + 60 * b,
                 s_is_weekend = False\<rparr>, g)) \<and>
   (is_weekend d \<and> generate_work_session p d h g = Inr (Some ws, g') \<longrightarrow>
      g' = g \<and>
      (\<exists>sched.
         (if weekday d = 5 then saturday (weekend_sched p) else sunday (weekend_sched p))
           = Some sched \<and>
         ws = \<lparr>s_start = at_clock d (ds_start sched), s_end = at_clock d (ds_end sched),
               s_is_weekend = True\<rparr>))"
proof (intro conjI impI)
  let ?v = "variance_minutes (work_hours p)"
  assume a: "\<not> is_weekend d \<and> 0 \<le> ?v"
  then have le: "- ?v \<le> ?v" by simp
  from randint_ok[OF le, of g] obtain o1 g1 where
    r1: "randint (- ?v) ?v g = Inr (o1, g1)" "- ?v \<le> o1" "o1 \<le> ?v" by blast
  from randint_ok[OF le, of g1] obtain o2 g2 where
    r2: "randint (- ?v) ?v g1 = Inr (o2, g2)" "- ?v \<le> o2" "o2 \<le> ?v" by blast
  have "generate_work_session p d h g =
          Inr (Some \<lparr>s_start = at_clock d (wh_start (work_hours p)) + 60 * o1,
                     s_end = at_clock d (wh_end (work_hours p)) + 60 * o2,
                     s_is_weekend = False\<rparr>, g2)"
    using a r1(1) r2(1) by (simp add: generate_work_session_def Let_def)
  with r1 r2 show "\<exists>o1 o2 g1 g2.
         randint (- ?v) ?v g = Inr (o1, g1) \<and> randint (- ?v) ?v g1 = Inr (o2, g2) \<and>
         - ?v \<le> o1 \<and> o1 \<le> ?v \<and> - ?v \<le> o2 \<and> o2 \<le> ?v \<and>
         generate_work_session p d h g =
           Inr (Some \<lparr>s_start = at_clock d (wh_start (work_hours p)) + 60 * o1,
                      s_end = at_clock d (wh_end (work_hours p)) + 60 * o2,
                      s_is_weekend = False\<rparr>, g2)"
    by blast
next
  let ?v = "variance_minutes (work_hours p)"
  assume a: "\<not> is_weekend d \<and> - ?v \<le> a \<and> a \<le> ?v \<and> - ?v \<le> b \<and> b \<le> ?v"
  then show "generate_work_session p d h (nat (a + ?v) # nat (b + ?v) # g) =
      Inr (Some \<lparr>s_start = at_clock d (wh_start (work_hours p)) + 60 * a,
                 s_end = at_clock d (wh_end (work_hours p)) + 60 * b,
                 s_is_weekend = False\<rparr>, g)"
    using randint_hit[of "- ?v" a ?v] randint_hit[of "- ?v" b ?v]
    by (simp add: generate_work_session_def Let_def)
next
  assume "is_weekend d \<and> generate_work_session p d h g = Inr (Some ws, g')"
  then show "g' = g"
    by (auto simp: generate_work_session_def split: if_splits option.splits)
next
  assume "is_weekend d \<and> generate_work_session p d h g = Inr (Some ws, g')"
  then show "\<exists>sched.
         (if weekday d = 5 then saturday (weekend_sched p) else sunday (weekend_sched p))
           = Some sched \<and>
         ws = \<lparr>s_start = at_clock d (ds_start sched), s_end = at_clock d (ds_end sched),
               s_is_weekend = True\<rparr>"
    by (auto simp: generate_work_session_def split: if_splits option.splits)
qed

theorem work_session_offsets_witness:
  "\<not> is_weekend monday \<and> 0 \<le> variance_minutes (work_hours example_profile) \<and>
   - variance_minutes (work_hours example_profile) \<le> 12 \<and>
   (12::int) \<le> variance_minutes (work_hours example_profile) \<and>
   - variance_minutes (work_hours example_profile) \<le> - 7 \<and>
   (- 7::int) \<le> variance_minutes (work_hours example_profile) \<and>
   generate_work_session example_profile monday ''alice-laptop'' [42, 23, 5] =
     Inr (Some \<lparr>s_start = 33120, s_end = 60780, s_is_weekend = False\<rparr>, [5]) \<and>
   is_weekend a_saturday \<and>
   generate_work_session example_profile a_saturday ''alice-laptop'' [42, 23, 5] =
     Inr (Some \<lparr>s_start = 468000, s_end = 482400, s_is_weekend = True\<rparr>, [42, 23, 5])"
  using work_session_offsets[where d = monday and p = example_profile and g = "[5]"
      and a = 12 and b = "- 7" and h = "''alice-laptop''"]
    work_session_offsets[where d = a_saturday and p = example_profile and g = "[42, 23, 5]"
      and h = "''alice-laptop''" and g' = "[42, 23, 5]"
      and ws = "\<lparr>s_start = 468000, s_end = 482400, s_is_weekend = True\<rparr>"]
  by (simp add: generate_work_session_def example_profile_def monday_def a_saturday_def
      is_weekend_def at_clock_def randint_def)

subsection \<open>Empty application lists\<close>

text \<open>
  Claim C10. With three empty application lists the candidate list is the fallback
  \<open>[''Chrome'']\<close> while the weight list is empty, so the first weighted choice raises
  \<^verbatim>\<open>ValueError\<close>, before the loop, and no event is produced, on every session.
\<close>

theorem empty_apps_raise:
  "productive (apps p) = [] \<and> neutral (apps p) = [] \<and> unproductive (apps p) = [] \<longrightarrow>
   all_apps_of p = [''Chrome''] \<and> app_weights_of p = [] \<and>
   generate_window_activities p ws breaks g = Some (Inl ValueError)"
  by (simp add: all_apps_of_def app_weights_of_def generate_window_activities_def choices_def)

theorem empty_apps_raise_witness:
  "productive (apps (example_profile\<lparr>apps := \<lparr>productive = [], neutral = [], unproductive = []\<rparr>\<rparr>)) = [] \<and>
   generate_window_activities
     (example_profile\<lparr>apps := \<lparr>productive = [], neutral = [], unproductive = []\<rparr>\<rparr>)
     \<lparr>s_start = 32400, s_end = 61200, s_is_weekend = False\<rparr> [] [1, 2, 3]
   = Some (Inl ValueError)"
  using empty_apps_raise[where
      p = "example_profile\<lparr>apps := \<lparr>productive = [], neutral = [], unproductive = []\<rparr>\<rparr>"
      and ws = "\<lparr>s_start = 32400, s_end = 61200, s_is_weekend = False\<rparr>"
      and breaks = "[]" and g = "[1, 2, 3]"]
  by simp

subsection \<open>Presence segments\<close>








text \<open>
  Claim C6 at a break of zero minutes: only the work branch of the presence derivation
  tests \<open>duration > 0\<close>. The profile asks for one coffee break of 0 minutes in a
  session from 09:00 to 10:00; the break is placed at 09:30 and an \<open>Idle\<close> segment of
  duration 0 is part of the output.
\<close>

theorem zero_duration_break_segment:
  "generate_work_session zero_break_profile monday ''carol-laptop'' [0, 0, 0, 0, 1800]
     = Inr (Some \<lparr>s_start = 32400, s_end = 36000, s_is_weekend = False\<rparr>, [0, 0, 1800]) \<and>
   generate_breaks (afk_behavior zero_break_profile)
       \<lparr>s_start = 32400, s_end = 36000, s_is_weekend = False\<rparr> [0, 0, 1800]
     = Inr ([\<lparr>b_start = 34200, b_end = 34200, b_type = Coffee\<rparr>], []) \<and>
   generate_afk_statuses \<lparr>s_start = 32400, s_end = 36000, s_is_weekend = False\<rparr>
       [\<lparr>b_start = 34200, b_end = 34200, b_type = Coffee\<rparr>] []
     = [\<lparr>status = Active, afk_duration = 1800, afk_timestamp = 32400\<rparr>,
        \<lparr>status = Idle, afk_duration = 0, afk_timestamp = 34200\<rparr>,
        \<lparr>status = Active, afk_duration = 1800, afk_timestamp = 34200\<rparr>]"
  by (simp add: generate_work_session_def zero_break_profile_def monday_def is_weekend_def
      at_clock_def randint_def generate_breaks_def lunch_break_def work_duration_def
      randint_range_def generate_afk_statuses_def segment_statuses_def Let_def
      coffee_break_def overlaps_existing_def numeral_eq_Suc)

subsection \<open>Utilization ratio\<close>










subsection \<open>Break scheduling\<close>






lemma place_break_raises:
  "wd < 60 * bd \<Longrightarrow> place_break (Suc k) wd bd st bs g = Inl ValueError"
  by (simp add: randint_empty)













lemma breaks_within_inside:
  "breaks_within lo hi bs \<Longrightarrow>
   lo \<le> hi \<and> (\<forall>b \<in> set bs. lo \<le> b_start b \<and> b_start b \<le> b_end b \<and> b_end b \<le> hi) \<and>
   sorted (map b_start bs)"
proof (induction bs arbitrary: lo)
  case Nil
  then show ?case by simp
next
  case (Cons b bs)
  from Cons.prems have p: "lo \<le> b_start b" "b_start b \<le> b_end b" "breaks_within (b_end b) hi bs"
    by simp_all
  from Cons.IH[OF p(3)] have ih: "b_end b \<le> hi"
    "\<forall>c \<in> set bs. b_end b \<le> b_start c \<and> b_start c \<le> b_end c \<and> b_end c \<le> hi"
    "sorted (map b_start bs)" by simp_all
  have "\<forall>c \<in> set bs. lo \<le> b_start c \<and> b_start b \<le> b_start c" using ih(2) p by force
  then show ?case using p ih by auto
qed





lemma two_coffee_run:
  "generate_breaks two_coffee_afk full_day []
     = Inr ([\<lparr>b_start = 32400, b_end = 33000, b_type = Coffee\<rparr>,
             \<lparr>b_start = 41040, b_end = 42840, b_type = Lunch\<rparr>], [])"
  by code_simp



subsection \<open>Coffee breaks longer than the session\<close>

lemma coffee_break_raises:
  assumes "randint_range (break_duration_minutes afk) g = Inr (bd, g1)" and "wd < 60 * bd"
  shows "coffee_break afk wd st bs g = Inl ValueError"
  using assms place_break_raises[of wd bd 9 st bs g1]
  by (simp add: coffee_break_def numeral_eq_Suc del: place_break.simps)

lemma coffee_loop_error: "coffee_loop n afk wd st bs g = Inl e \<Longrightarrow> e = ValueError"
proof (induction n arbitrary: bs g)
  case 0
  then show ?case by simp
next
  case (Suc n)
  show ?case
  proof (cases "coffee_break afk wd st bs g")
    case (Inl e')
    then have "e' = e" using Suc.prems by simp
    have pb: "\<And>k g0 bd e0. place_break k wd bd st bs g0 = Inl e0 \<Longrightarrow> e0 = ValueError"
    proof -
      fix k g0 bd e0
      show "place_break k wd bd st bs g0 = Inl e0 \<Longrightarrow> e0 = ValueError"
      proof (induction k arbitrary: g0)
        case 0
        then show ?case by simp
      next
        case (Suc k)
        then show ?case
          by (auto simp: Let_def split: sum.splits if_splits dest: randint_error)
      qed
    qed
    from Inl have "e' = ValueError"
      by (auto simp: coffee_break_def randint_range_def split: sum.splits
          dest: randint_error pb)
    with \<open>e' = e\<close> show ?thesis by simp
  next
    case (Inr r)
    then show ?thesis using Suc by (cases r) auto
  qed
qed

lemma coffee_loop_raises:
  "\<exists>d \<in> set (drawn_durations n afk wd st bs g). wd < 60 * d \<Longrightarrow>
   coffee_loop n afk wd st bs g = Inl ValueError"
proof (induction n arbitrary: bs g)
  case 0
  then show ?case by simp
next
  case (Suc n)
  from Suc.prems have "\<exists>bd g1. randint_range (break_duration_minutes afk) g = Inr (bd, g1)"
    by (cases "randint_range (break_duration_minutes afk) g") auto
  then obtain bd g1 where
    r: "randint_range (break_duration_minutes afk) g = Inr (bd, g1)"
    by blast
  show ?case
  proof (cases "wd < 60 * bd")
    case True
    from coffee_break_raises[OF r True] show ?thesis by simp
  next
    case False
    show ?thesis
    proof (cases "place_break 10 wd bd st bs g1")
      case (Inl e)
      with Suc.prems r False show ?thesis by simp
    next
      case (Inr res)
      obtain bs1 g2 where res: "res = (bs1, g2)" by (cases res)
      with Suc.prems r False Inr
      have "\<exists>d \<in> set (drawn_durations n afk wd st bs1 g2). wd < 60 * d" by simp
      from Suc.IH[OF this] r Inr res show ?thesis by (simp add: coffee_break_def)
    qed
  qed
qed

text \<open>
  Claim C9. There is a profile and a session on which the break scheduler raises (one
  coffee break of 90 minutes in a session of one hour). In general: a pass of the coffee
  loop that draws a duration whose seconds exceed \<open>work_duration\<close> raises
  \<^verbatim>\<open>ValueError\<close> (its first \<^verbatim>\<open>randint(0, work_duration - break_duration * 60)\<close> is on an
  empty range); the loop, and with it the scheduler, raises as soon as one of the
  durations it draws is too long; and the scheduler returns normally only if every
  duration it drew fits.
\<close>

theorem long_coffee_break_raises:
  "generate_breaks long_coffee_afk one_hour [] = Inl ValueError \<and>
   (randint_range (break_duration_minutes afk) g = Inr (bd, ga) \<and> wd < 60 * bd \<longrightarrow>
      coffee_break afk wd st bs g = Inl ValueError) \<and>
   ((\<exists>d \<in> set (drawn_durations n afk wd st bs g). wd < 60 * d) \<longrightarrow>
      coffee_loop n afk wd st bs g = Inl ValueError) \<and>
   (lunch_break afk ws g = Inr (ls, gb) \<and>
    randint_range (coffee_breaks afk) gb = Inr (m, gc) \<longrightarrow>
      ((\<exists>d \<in> set (drawn_durations (nat m) afk (work_duration ws) (s_start ws) ls gc).
          work_duration ws < 60 * d) \<longrightarrow>
         generate_breaks afk ws g = Inl ValueError) \<and>
      ((\<exists>r. generate_breaks afk ws g = Inr r) \<longrightarrow>
         (\<forall>d \<in> set (drawn_durations (nat m) afk (work_duration ws) (s_start ws) ls gc).
            60 * d \<le> work_duration ws)))"
proof (intro conjI impI)
  show "generate_breaks long_coffee_afk one_hour [] = Inl ValueError" by code_simp
next
  assume "randint_range (break_duration_minutes afk) g = Inr (bd, ga) \<and> wd < 60 * bd"
  then show "coffee_break afk wd st bs g = Inl ValueError"
    using coffee_break_raises by blast
next
  assume "\<exists>d \<in> set (drawn_durations n afk wd st bs g). wd < 60 * d"
  then show "coffee_loop n afk wd st bs g = Inl ValueError" by (rule coffee_loop_raises)
next
  assume a: "lunch_break afk ws g = Inr (ls, gb) \<and>
    randint_range (coffee_breaks afk) gb = Inr (m, gc)"
  assume "\<exists>d \<in> set (drawn_durations (nat m) afk (work_duration ws) (s_start ws) ls gc).
          work_duration ws < 60 * d"
  from coffee_loop_raises[OF this] a
  show "generate_breaks afk ws g = Inl ValueError" by (simp add: generate_breaks_def)
next
  assume a: "lunch_break afk ws g = Inr (ls, gb) \<and>
    randint_range (coffee_breaks afk) gb = Inr (m, gc)"
  assume r: "\<exists>r. generate_breaks afk ws g = Inr r"
  show "\<forall>d \<in> set (drawn_durations (nat m) afk (work_duration ws) (s_start ws) ls gc).
            60 * d \<le> work_duration ws"
  proof (rule ccontr)
    assume "\<not> ?thesis"
    then have "\<exists>d \<in> set (drawn_durations (nat m) afk (work_duration ws) (s_start ws) ls gc).
          work_duration ws < 60 * d" by (auto simp: not_le)
    from coffee_loop_raises[OF this] a
    have "generate_breaks afk ws g = Inl ValueError" by (simp add: generate_breaks_def)
    with r show False by simp
  qed
qed

theorem long_coffee_break_raises_witness:
  "coffee_break long_coffee_afk 3600 32400 [] [] = Inl ValueError \<and>
   coffee_loop 1 long_coffee_afk 3600 32400 [] [] = Inl ValueError \<and>
   generate_breaks long_coffee_afk one_hour [] = Inl ValueError \<and>
   list_all (\<lambda>d. 60 * d \<le> work_duration full_day)
     (drawn_durations (nat 2) two_coffee_afk (work_duration full_day) (s_start full_day)
        [\<lparr>b_start = 41040, b_end = 42840, b_type = Lunch\<rparr>] [])"
proof -
  note T = long_coffee_break_raises[where afk = long_coffee_afk and g = "[]" and bd = 90
      and ga = "[]" and wd = 3600 and st = 32400 and bs = "[]" and n = 1
      and ws = one_hour and ls = "[]" and gb = "[]" and m = 1 and gc = "[]"]
  note U = long_coffee_break_raises[where afk = two_coffee_afk and g = "[]"
      and ws = full_day and ls = "[\<lparr>b_start = 41040, b_end = 42840, b_type = Lunch\<rparr>]"
      and gb = "[]" and m = 2 and gc = "[]"]
  have h1: "randint_range (break_duration_minutes long_coffee_afk) [] = Inr (90, []) \<and>
            (3600::int) < 60 * 90"
    by code_simp
  have h2: "\<exists>d \<in> set (drawn_durations 1 long_coffee_afk 3600 32400 [] []). 3600 < 60 * d"
    by code_simp
  have h3: "lunch_break long_coffee_afk one_hour [] = Inr ([], []) \<and>
            randint_range (coffee_breaks long_coffee_afk) [] = Inr (1, [])"
    by code_simp
  have h4: "\<exists>d \<in> set (drawn_durations (nat 1) long_coffee_afk (work_duration one_hour)
                          (s_start one_hour) [] []). work_duration one_hour < 60 * d"
    by code_simp
  have h5: "lunch_break two_coffee_afk full_day []
              = Inr ([\<lparr>b_start = 41040, b_end = 42840, b_type = Lunch\<rparr>], []) \<and>
            randint_range (coffee_breaks two_coffee_afk) [] = Inr (2, [])"
    by code_simp
  have h6: "\<exists>r. generate_breaks two_coffee_afk full_day [] = Inr r"
    using two_coffee_run by blast
  from T h1 h2 h3 h4 have
    "coffee_break long_coffee_afk 3600 32400 [] [] = Inl ValueError \<and>
     coffee_loop 1 long_coffee_afk 3600 32400 [] [] = Inl ValueError \<and>
     generate_breaks long_coffee_afk one_hour [] = Inl ValueError"
    by blast
  moreover from U h5 h6 have
    "\<forall>d \<in> set (drawn_durations (nat 2) two_coffee_afk (work_duration full_day)
                   (s_start full_day) [\<lparr>b_start = 41040, b_end = 42840, b_type = Lunch\<rparr>] []).
       60 * d \<le> work_duration full_day"
    by blast
  ultimately show ?thesis by (simp add: list_all_iff)
qed

subsection \<open>Window activity\<close>

lemma find_in_break_SomeD:
  "find_in_break t bs = Some b \<Longrightarrow> b \<in> set bs \<and> b_start b \<le> t \<and> t < b_end b"
  by (induction bs) (auto split: if_splits)

lemma find_in_break_NoneD:
  "find_in_break t bs = None \<Longrightarrow> b \<in> set bs \<Longrightarrow> \<not> (b_start b \<le> t \<and> t < b_end b)"
  by (induction bs) (auto split: if_splits)

lemma next_break_time_NoneD:
  "next_break_time t bs = None \<Longrightarrow> b \<in> set bs \<Longrightarrow> b_start b \<le> t"
  by (induction bs) (auto split: if_splits)

lemma next_break_time_SomeD:
  "sorted (map b_start bs) \<Longrightarrow> next_break_time t bs = Some n \<Longrightarrow>
   t < n \<and> (\<forall>b \<in> set bs. t < b_start b \<longrightarrow> n \<le> b_start b)"
  by (induction bs) (auto split: if_splits)

lemma draw_duration_ok: "\<exists>d g1. draw_duration p g = Inr (d, g1) \<and> 30 \<le> d"
proof -
  have a: "\<exists>d g1. randint 30 180 g = Inr (d, g1) \<and> 30 \<le> d"
    using randint_ok[of 30 180 g] by auto
  have b: "\<exists>d g1. randint 60 300 g = Inr (d, g1) \<and> 30 \<le> d"
    using randint_ok[of 60 300 g] by fastforce
  have c: "\<exists>d g1. randint 180 900 g = Inr (d, g1) \<and> 30 \<le> d"
    using randint_ok[of 180 900 g] by fastforce
  show ?thesis unfolding draw_duration_def using a b c by simp
qed

lemma window_titles_nonempty: "map_of WINDOW_TITLES a = Some ts \<Longrightarrow> ts \<noteq> []"
proof -
  assume "map_of WINDOW_TITLES a = Some ts"
  then have "(a, ts) \<in> set WINDOW_TITLES" by (rule map_of_SomeD)
  then have "ts \<in> snd ` set WINDOW_TITLES" by force
  moreover have "\<forall>x \<in> snd ` set WINDOW_TITLES. x \<noteq> []"
    by (simp add: WINDOW_TITLES_def)
  ultimately show ?thesis by blast
qed

lemma choice_ok: "xs \<noteq> [] \<Longrightarrow> \<exists>x g'. choice xs g = Inr (x, g')"
  by (cases "next_raw g") (simp add: choice_def)

lemma get_window_title_ok: "\<exists>t g'. get_window_title a g = Inr (t, g')"
proof (cases "map_of WINDOW_TITLES a")
  case None
  then show ?thesis by (simp add: get_window_title_def)
next
  case (Some ts)
  from window_titles_nonempty[OF Some] choice_ok[of ts g] Some
  show ?thesis by (simp add: get_window_title_def)
qed

lemma choices_ok:
  "length ws = length pop \<Longrightarrow> ws \<noteq> [] \<Longrightarrow> sum_list ws \<noteq> 0 \<Longrightarrow>
   \<exists>x g'. choices pop ws g = Inr (x, g')"
  by (cases "next_raw g") (simp add: choices_def)

lemma maybe_switch_ok:
  assumes "length ws = length pop" "ws \<noteq> []" "sum_list ws \<noteq> 0"
  shows "\<exists>x g'. maybe_switch p pop ws a g = Inr (x, g')"
proof -
  obtain x g1 where r: "random_unit g = (x, g1)" by (cases "random_unit g")
  from choices_ok[OF assms, of g1] r show ?thesis
    by (auto simp: maybe_switch_def)
qed

lemma clip_duration_bounds:
  assumes A1: "\<forall>b \<in> set breaks. s \<le> b_start b \<and> b_start b \<le> b_end b \<and> b_end b \<le> e"
    and A2: "sorted (map b_start breaks)"
    and A3: "e - s < 86400"
    and C: "s \<le> cur" "cur < e"
    and D: "30 \<le> d"
  shows "0 < clip_duration d cur e breaks \<and> clip_duration d cur e breaks \<le> e - cur \<and>
         (\<forall>b \<in> set breaks. cur < b_start b \<longrightarrow> cur + clip_duration d cur e breaks \<le> b_start b)"
proof -
  have rem: "(e - cur) mod 86400 = e - cur" using A3 C by simp
  show ?thesis
  proof (cases "next_break_time cur breaks")
    case None
    then have cd: "clip_duration d cur e breaks = min d (e - cur)"
      by (simp add: clip_duration_def rem)
    have "\<forall>b \<in> set breaks. \<not> cur < b_start b"
      using next_break_time_NoneD[OF None] by fastforce
    then show ?thesis using cd C D by auto
  next
    case (Some n)
    from next_break_time_SomeD[OF A2 Some] have n: "cur < n"
      "\<forall>b \<in> set breaks. cur < b_start b \<longrightarrow> n \<le> b_start b" by simp_all
    have "\<exists>b \<in> set breaks. b_start b = n" using Some
      by (induction breaks) (auto split: if_splits)
    then have "n \<le> e" using A1 by fastforce
    then have "(n - cur) mod 86400 = n - cur" using n(1) A3 C by simp
    then have cd: "clip_duration d cur e breaks = min d (min (e - cur) (n - cur))"
      by (simp add: clip_duration_def rem Some)
    show ?thesis unfolding cd using n C D by auto
  qed
qed


lemma events_chain_mono: "events_chain lo as \<Longrightarrow> lo' \<le> lo \<Longrightarrow> events_chain lo' as"
  by (cases as) auto

lemma covers_skip_break:
  assumes "covers cur' e breaks new" "b \<in> set breaks" "b_start b \<le> cur" "cur \<le> cur'"
    "cur' = b_end b"
  shows "covers cur e breaks new"
proof -
  have "{cur..<cur'} \<subseteq> break_span b" using assms(3,5) by (auto simp: break_span_def)
  then have sub: "{cur..<cur'} \<subseteq> (\<Union>b \<in> set breaks. break_span b)"
    using assms(2) by blast
  have "{cur..<e} - (\<Union>b \<in> set breaks. break_span b)
      = {cur'..<e} - (\<Union>b \<in> set breaks. break_span b)"
  proof (intro equalityI subsetI)
    fix x assume x: "x \<in> {cur..<e} - (\<Union>b \<in> set breaks. break_span b)"
    have "\<not> x < cur'"
    proof
      assume "x < cur'"
      with x have "x \<in> {cur..<cur'}" by simp
      with sub x show False by blast
    qed
    with x show "x \<in> {cur'..<e} - (\<Union>b \<in> set breaks. break_span b)" by simp
  next
    fix x assume "x \<in> {cur'..<e} - (\<Union>b \<in> set breaks. break_span b)"
    with assms(4) show "x \<in> {cur..<e} - (\<Union>b \<in> set breaks. break_span b)" by simp
  qed
  then show ?thesis using assms(1,4) by (auto simp: covers_def intro: events_chain_mono)
qed

lemma covers_event:
  assumes "covers (cur + c) e breaks new" "0 < c"
    and free: "\<forall>b \<in> set breaks. \<not> (b_start b \<le> cur \<and> cur < b_end b)"
    and nxt: "\<forall>b \<in> set breaks. cur < b_start b \<longrightarrow> cur + c \<le> b_start b"
    and wf: "\<forall>b \<in> set breaks. b_start b \<le> b_end b"
    and fits: "cur + c \<le> e"
  shows "covers cur e breaks
           (\<lparr>app = ap, title = ttl, duration = c, timestamp = cur\<rparr> # new)"
proof -
  let ?a = "\<lparr>app = ap, title = ttl, duration = c, timestamp = cur\<rparr>"
  let ?B = "(\<Union>b \<in> set breaks. break_span b)"
  have sp: "activity_span ?a = {cur..<cur + c}" by (simp add: activity_span_def)
  have disj: "{cur..<cur + c} \<inter> ?B = {}"
  proof (rule ccontr)
    assume "{cur..<cur + c} \<inter> ?B \<noteq> {}"
    then obtain x b where x: "cur \<le> x" "x < cur + c" "b \<in> set breaks" "b_start b \<le> x" "x < b_end b"
      by (auto simp: break_span_def)
    show False
    proof (cases "b_start b \<le> cur")
      case True
      with x free show False by force
    next
      case False
      with nxt x(3) have "cur + c \<le> b_start b" by force
      with x show False by linarith
    qed
  qed
  have ch: "events_chain (cur + c) new" using assms(1) by (simp add: covers_def)
  have u: "(\<Union>a \<in> set new. activity_span a) = {cur + c..<e} - ?B"
    using assms(1) by (simp add: covers_def)
  have sub: "(\<Union>a \<in> set new. activity_span a) \<subseteq> {cur + c..}"
    using u by auto
  have nb: "\<forall>b \<in> set breaks. no_boundary_inside ?a b"
  proof
    fix b assume b: "b \<in> set breaks"
    show "no_boundary_inside ?a b"
    proof (cases "b_start b \<le> cur")
      case True
      with free b have "b_end b \<le> cur" by force
      with True show ?thesis by (simp add: no_boundary_inside_def)
    next
      case False
      with nxt b have "cur + c \<le> b_start b" by force
      moreover have "b_start b \<le> b_end b" using wf b by simp
      ultimately show ?thesis by (simp add: no_boundary_inside_def)
    qed
  qed
  have cover_e: "{cur..<cur + c} \<union> ({cur + c..<e} - ?B) = {cur..<e} - ?B"
    using fits disj assms(2) by auto
  have nb': "\<forall>a \<in> set new. \<forall>b \<in> set breaks. no_boundary_inside a b"
    using assms(1) by (simp add: covers_def)
  show ?thesis unfolding covers_def
    using ch assms(2) u sp nb nb' cover_e by simp
qed

lemma activity_loop_covers:
  assumes A1: "\<forall>b \<in> set breaks. s \<le> b_start b \<and> b_start b \<le> b_end b \<and> b_end b \<le> e"
    and A2: "sorted (map b_start breaks)"
    and A3: "e - s < 86400"
    and W: "length ws = length pop" "ws \<noteq> []" "sum_list ws \<noteq> 0"
  shows "s \<le> cur \<Longrightarrow> cur \<le> e \<Longrightarrow>
         \<exists>new g'. activity_loop p pop ws e breaks cur ap acts g = Some (Inr (acts @ new, g')) \<and>
                  covers cur e breaks new"
proof (induction "nat (e - cur)" arbitrary: cur ap acts g rule: less_induct)
  case less
  show ?case
  proof (cases "cur < e")
    case False
    with less.prems have ce: "cur = e" by simp
    have "activity_loop p pop ws e breaks cur ap acts g = Some (Inr (acts @ [], g))"
      using False by (subst activity_loop.simps) simp
    moreover have "covers cur e breaks []" using ce by (simp add: covers_def)
    ultimately show ?thesis by blast
  next
    case True
    show ?thesis
    proof (cases "find_in_break cur breaks")
      case (Some brk)
      from find_in_break_SomeD[OF Some] have b: "brk \<in> set breaks" "b_start brk \<le> cur"
        "cur < b_end brk" by simp_all
      from A1 b(1) have be: "b_end brk \<le> e" by simp
      have m: "nat (e - b_end brk) < nat (e - cur)" using b(3) True by linarith
      have "s \<le> b_end brk" using less.prems(1) b(3) by linarith
      from less.hyps[OF m this be, of ap acts g] obtain new g' where
        r: "activity_loop p pop ws e breaks (b_end brk) ap acts g = Some (Inr (acts @ new, g'))"
        and c: "covers (b_end brk) e breaks new" by blast
      have "activity_loop p pop ws e breaks cur ap acts g = Some (Inr (acts @ new, g'))"
        using True Some r by (subst activity_loop.simps) simp
      moreover have "covers cur e breaks new"
        using covers_skip_break[OF c b(1) b(2)] b(3) by simp
      ultimately show ?thesis by blast
    next
      case None
      from draw_duration_ok[of p g] obtain d g1 where
        d: "draw_duration p g = Inr (d, g1)" "30 \<le> d" by blast
      let ?c = "clip_duration d cur e breaks"
      from clip_duration_bounds[OF A1 A2 A3 less.prems(1) True d(2)]
      have cb: "0 < ?c" "?c \<le> e - cur"
        "\<forall>b \<in> set breaks. cur < b_start b \<longrightarrow> cur + ?c \<le> b_start b" by simp_all
      from get_window_title_ok[of ap g1] obtain ttl g2 where
        t: "get_window_title ap g1 = Inr (ttl, g2)" by blast
      from maybe_switch_ok[OF W, of p ap g2] obtain ap' g3 where
        sw: "maybe_switch p pop ws ap g2 = Inr (ap', g3)" by blast
      let ?a = "\<lparr>app = ap, title = ttl, duration = ?c, timestamp = cur\<rparr>"
      have m: "nat (e - (cur + ?c)) < nat (e - cur)" using cb(1) True by linarith
      have s': "s \<le> cur + ?c" using less.prems(1) cb(1) by linarith
      have e': "cur + ?c \<le> e" using cb(2) by linarith
      from less.hyps[OF m s' e', of ap' "acts @ [?a]" g3] obtain new g' where
        r: "activity_loop p pop ws e breaks (cur + ?c) ap' (acts @ [?a]) g3
              = Some (Inr ((acts @ [?a]) @ new, g'))"
        and c: "covers (cur + ?c) e breaks new" by blast
      have "activity_loop p pop ws e breaks cur ap acts g = Some (Inr (acts @ (?a # new), g'))"
        using True None d(1) cb(1) t sw r by (subst activity_loop.simps) simp
      moreover have "covers cur e breaks (?a # new)"
      proof (rule covers_event[OF c cb(1) _ cb(3) _ e'])
        show "\<forall>b \<in> set breaks. \<not> (b_start b \<le> cur \<and> cur < b_end b)"
          using find_in_break_NoneD[OF None] by blast
        show "\<forall>b \<in> set breaks. b_start b \<le> b_end b" using A1 by simp
      qed
      ultimately show ?thesis by blast
    qed
  qed
qed

lemma events_chain_lower: "events_chain lo as \<Longrightarrow> (\<Union>a \<in> set as. activity_span a) \<subseteq> {lo..}"
proof (induction as arbitrary: lo)
  case Nil
  then show ?case by simp
next
  case (Cons a as)
  from Cons.prems have c: "lo \<le> timestamp a" "0 < duration a"
    "events_chain (timestamp a + duration a) as" by simp_all
  from Cons.IH[OF c(3)] have "(\<Union>a \<in> set as. activity_span a) \<subseteq> {timestamp a + duration a..}" .
  then have "(\<Union>a \<in> set as. activity_span a) \<subseteq> {lo..}" using c by auto
  moreover have "activity_span a \<subseteq> {lo..}" using c by (auto simp: activity_span_def)
  ultimately show ?case by auto
qed

lemma events_chain_sorted:
  "events_chain lo as \<Longrightarrow>
   sorted_wrt (\<lambda>a a'. timestamp a + duration a \<le> timestamp a') as \<and>
   (\<forall>a \<in> set as. lo \<le> timestamp a \<and> 0 < duration a)"
proof (induction as arbitrary: lo)
  case Nil
  then show ?case by simp
next
  case (Cons a as)
  from Cons.prems have c: "lo \<le> timestamp a" "0 < duration a"
    "events_chain (timestamp a + duration a) as" by simp_all
  from Cons.IH[OF c(3)] have ih: "sorted_wrt (\<lambda>a a'. timestamp a + duration a \<le> timestamp a') as"
    "\<forall>x \<in> set as. timestamp a + duration a \<le> timestamp x \<and> 0 < duration x" by simp_all
  have "\<forall>x \<in> set as. lo \<le> timestamp x" using ih(2) c by force
  then show ?case using c ih by simp
qed

lemma finite_spans: "finite (\<Union>a \<in> set as. activity_span a)"
  by (simp add: activity_span_def)

lemma events_chain_card:
  "events_chain lo as \<Longrightarrow>
   int (card (\<Union>a \<in> set as. activity_span a)) = sum_list (map duration as)"
proof (induction as arbitrary: lo)
  case Nil
  then show ?case by simp
next
  case (Cons a as)
  from Cons.prems have c: "lo \<le> timestamp a" "0 < duration a"
    "events_chain (timestamp a + duration a) as" by simp_all
  let ?R = "(\<Union>a \<in> set as. activity_span a)"
  from events_chain_lower[OF c(3)] have "?R \<subseteq> {timestamp a + duration a..}" .
  then have d: "activity_span a \<inter> ?R = {}" by (auto simp: activity_span_def)
  have "card (activity_span a \<union> ?R) = card (activity_span a) + card ?R"
    by (rule card_Un_disjoint) (simp_all add: finite_spans d, simp add: activity_span_def)
  moreover have "int (card (activity_span a)) = duration a"
    using c(2) by (simp add: activity_span_def)
  moreover have "int (card ?R) = sum_list (map duration as)" by (rule Cons.IH[OF c(3)])
  ultimately show ?case by simp
qed

lemma app_weights_ok:
  assumes "productive (apps p) @ neutral (apps p) @ unproductive (apps p) \<noteq> []"
  shows "length (app_weights_of p) = length (all_apps_of p) \<and> app_weights_of p \<noteq> [] \<and>
         sum_list (app_weights_of p) \<noteq> 0"
proof -
  have "length (app_weights_of p) = length (all_apps_of p)"
    using assms by (simp add: app_weights_of_def all_apps_of_def Let_def)
  moreover have "app_weights_of p \<noteq> []" using assms by (auto simp: app_weights_of_def)
  moreover have "\<forall>w \<in> set (app_weights_of p). 0 < w" by (auto simp: app_weights_of_def)
  ultimately show ?thesis by (cases "app_weights_of p") auto
qed

lemma window_activities_cover:
  assumes apps: "productive (apps p) @ neutral (apps p) @ unproductive (apps p) \<noteq> []"
    and A1: "\<forall>b \<in> set breaks. s_start ws \<le> b_start b \<and> b_start b \<le> b_end b \<and> b_end b \<le> s_end ws"
    and A2: "sorted (map b_start breaks)"
    and A3: "s_end ws - s_start ws < 86400"
  shows "\<exists>acts g'. generate_window_activities p ws breaks g = Some (Inr (acts, g')) \<and>
           covers (s_start ws) (s_end ws) breaks acts"
proof -
  from app_weights_ok[OF apps] have W: "length (app_weights_of p) = length (all_apps_of p)"
    "app_weights_of p \<noteq> []" "sum_list (app_weights_of p) \<noteq> 0" by simp_all
  from choices_ok[OF W, of g] obtain ap g1 where
    c: "choices (all_apps_of p) (app_weights_of p) g = Inr (ap, g1)" by blast
  show ?thesis
  proof (cases "s_start ws \<le> s_end ws")
    case True
    have "s_start ws \<le> s_start ws" by simp
    from activity_loop_covers[OF A1 A2 A3 W this True, where p = p and ap = ap
        and acts = "[]" and g = g1]
    obtain new g' where "activity_loop p (all_apps_of p) (app_weights_of p) (s_end ws) breaks
        (s_start ws) ap [] g1 = Some (Inr ([] @ new, g'))" "covers (s_start ws) (s_end ws) breaks new"
      by auto
    with c show ?thesis by (simp add: generate_window_activities_def)
  next
    case False
    then have "breaks = []" using A1 by (cases breaks) auto
    have "activity_loop p (all_apps_of p) (app_weights_of p) (s_end ws) breaks
        (s_start ws) ap [] g1 = Some (Inr ([], g1))"
      using False by (subst activity_loop.simps) simp
    moreover have "covers (s_start ws) (s_end ws) breaks []"
      using False by (simp add: covers_def)
    ultimately show ?thesis using c by (simp add: generate_window_activities_def)
  qed
qed

lemma covers_union:
  assumes "covers s e breaks acts"
    and A1: "\<forall>b \<in> set breaks. s \<le> b_start b \<and> b_start b \<le> b_end b \<and> b_end b \<le> e"
  shows "(\<Union>a \<in> set acts. activity_span a) \<union> (\<Union>b \<in> set breaks. break_span b) = {s..<e}"
    and "(\<Union>a \<in> set acts. activity_span a) \<inter> (\<Union>b \<in> set breaks. break_span b) = {}"
proof -
  have u: "(\<Union>a \<in> set acts. activity_span a) = {s..<e} - (\<Union>b \<in> set breaks. break_span b)"
    using assms(1) by (simp add: covers_def)
  have "(\<Union>b \<in> set breaks. break_span b) \<subseteq> {s..<e}"
    using A1 by (fastforce simp: break_span_def)
  then show "(\<Union>a \<in> set acts. activity_span a) \<union> (\<Union>b \<in> set breaks. break_span b) = {s..<e}"
    unfolding u by blast
  show "(\<Union>a \<in> set acts. activity_span a) \<inter> (\<Union>b \<in> set breaks. break_span b) = {}"
    unfolding u by blast
qed


text \<open>
  Claim C2, as stated, fails for a generated session whose lunch outlasts it (work hours
  09:00-13:30, lunch of 240 minutes from 10:21 to 14:21): the events stop at the lunch
  and the lunch reaches beyond the session end, so events and breaks together are not
  the session interval.
\<close>

theorem events_and_breaks_exceed_session:
  "generate_breaks (afk_behavior long_lunch_profile)
       \<lparr>s_start = 32400, s_end = 48600, s_is_weekend = False\<rparr> []
     = Inr ([\<lparr>b_start = 37260, b_end = 51660, b_type = Lunch\<rparr>], []) \<and>
   generate_window_activities long_lunch_profile
       \<lparr>s_start = 32400, s_end = 48600, s_is_weekend = False\<rparr>
       [\<lparr>b_start = 37260, b_end = 51660, b_type = Lunch\<rparr>]
       [0, 720, 0, 0, 720, 0, 0, 720, 0, 0, 720, 0, 0, 720, 0, 0, 720, 0, 0]
     = Some (Inr ([\<lparr>app = ''VSCode'', title = ''main.go - VSCode'', duration = 900,
                     timestamp = 32400\<rparr>,
                   \<lparr>app = ''VSCode'', title = ''main.go - VSCode'', duration = 900,
                     timestamp = 33300\<rparr>,
                   \<lparr>app = ''VSCode'', title = ''main.go - VSCode'', duration = 900,
                     timestamp = 34200\<rparr>,
                   \<lparr>app = ''VSCode'', title = ''main.go - VSCode'', duration = 900,
                     timestamp = 35100\<rparr>,
                   \<lparr>app = ''VSCode'', title = ''main.go - VSCode'', duration = 900,
                     timestamp = 36000\<rparr>,
                   \<lparr>app = ''VSCode'', title = ''main.go - VSCode'', duration = 360,
                     timestamp = 36900\<rparr>], [])) \<and>
   50000 \<in> break_span \<lparr>b_start = 37260, b_end = 51660, b_type = Lunch\<rparr> \<and>
   50000 \<notin> {s_start \<lparr>s_start = 32400, s_end = 48600, s_is_weekend = False\<rparr> ..<
              s_end \<lparr>s_start = 32400, s_end = 48600, s_is_weekend = False\<rparr>}"
  by (simp add: activity_loop.simps generate_window_activities_def choices_def all_apps_of_def
      app_weights_of_def long_lunch_profile_def draw_duration_def avg_switches_def randint_def
      clip_duration_def get_window_title_def WINDOW_TITLES_def choice_def maybe_switch_def
      random_unit_def Let_def generate_breaks_def lunch_break_def work_duration_def
      randint_range_def break_span_def)

text \<open>
  Claim C2, amended. For a profile with at least one application, a session of less than
  a day and a break list sorted by start whose breaks lie inside the session (none
  ending before it starts), the activity generator returns; the seconds of its events
  together with the seconds of the breaks are exactly the session interval; no event
  shares a second with a break; the events are in time order, each of positive duration
  and ending no later than the next one starts; and no event has a break boundary
  strictly inside it.
\<close>

theorem activity_coverage:
  assumes "productive (apps p) @ neutral (apps p) @ unproductive (apps p) \<noteq> []"
    and "\<forall>b \<in> set breaks.
           s_start ws \<le> b_start b \<and> b_start b \<le> b_end b \<and> b_end b \<le> s_end ws"
    and "sorted (map b_start breaks)"
    and "s_end ws - s_start ws < 86400"
  shows "\<exists>acts g'.
           generate_window_activities p ws breaks g = Some (Inr (acts, g')) \<and>
           (\<Union>a \<in> set acts. activity_span a) \<union> (\<Union>b \<in> set breaks. break_span b)
             = {s_start ws ..< s_end ws} \<and>
           (\<Union>a \<in> set acts. activity_span a) \<inter> (\<Union>b \<in> set breaks. break_span b) = {} \<and>
           sorted_wrt (\<lambda>a a'. timestamp a + duration a \<le> timestamp a') acts \<and>
           (\<forall>a \<in> set acts. 0 < duration a) \<and>
           (\<forall>a \<in> set acts. \<forall>b \<in> set breaks. no_boundary_inside a b)"
proof -
  from window_activities_cover[OF assms, of g] obtain acts g' where
    r: "generate_window_activities p ws breaks g = Some (Inr (acts, g'))"
    and c: "covers (s_start ws) (s_end ws) breaks acts" by blast
  from c have ch: "events_chain (s_start ws) acts"
    and nb: "\<forall>a \<in> set acts. \<forall>b \<in> set breaks. no_boundary_inside a b"
    by (simp_all add: covers_def)
  from events_chain_sorted[OF ch]
  have so: "sorted_wrt (\<lambda>a a'. timestamp a + duration a \<le> timestamp a') acts"
    and po: "\<forall>a \<in> set acts. 0 < duration a" by simp_all
  from covers_union[OF c assms(2)] r so po nb show ?thesis by blast
qed

theorem activity_coverage_witness:
  "generate_window_activities example_profile
       \<lparr>s_start = 32400, s_end = 33600, s_is_weekend = False\<rparr>
       [\<lparr>b_start = 32700, b_end = 33000, b_type = Coffee\<rparr>]
       [0, 240, 0, 999999, 240, 0, 999999, 240, 0, 999999]
     = Some (Inr ([\<lparr>app = ''VSCode'', title = ''main.go - VSCode'', duration = 300,
                     timestamp = 32400\<rparr>,
                   \<lparr>app = ''VSCode'', title = ''main.go - VSCode'', duration = 300,
                     timestamp = 33000\<rparr>,
                   \<lparr>app = ''VSCode'', title = ''main.go - VSCode'', duration = 300,
                     timestamp = 33300\<rparr>], [])) \<and>
   (\<Union>a \<in> set [\<lparr>app = ''VSCode'', title = ''main.go - VSCode'', duration = 300,
                     timestamp = 32400\<rparr>,
                   \<lparr>app = ''VSCode'', title = ''main.go - VSCode'', duration = 300,
                     timestamp = 33000\<rparr>,
                   \<lparr>app = ''VSCode'', title = ''main.go - VSCode'', duration = 300,
                     timestamp = 33300\<rparr>]. activity_span a)
     \<union> (\<Union>b \<in> set [\<lparr>b_start = 32700, b_end = 33000, b_type = Coffee\<rparr>]. break_span b)
     = {32400 ..< 33600}"
proof -
  let ?ws = "\<lparr>s_start = 32400, s_end = 33600, s_is_weekend = False\<rparr>"
  let ?bs = "[\<lparr>b_start = 32700, b_end = 33000, b_type = Coffee\<rparr>]"
  let ?g = "[0, 240, 0, 999999, 240, 0, 999999, 240, 0, 999999] :: nat list"
  let ?acts = "[\<lparr>app = ''VSCode'', title = ''main.go - VSCode'', duration = 300,
                     timestamp = 32400\<rparr>,
                   \<lparr>app = ''VSCode'', title = ''main.go - VSCode'', duration = 300,
                     timestamp = 33000\<rparr>,
                   \<lparr>app = ''VSCode'', title = ''main.go - VSCode'', duration = 300,
                     timestamp = 33300\<rparr>]"
  have run: "generate_window_activities example_profile ?ws ?bs ?g = Some (Inr (?acts, []))"
    by (simp add: activity_loop.simps generate_window_activities_def choices_def all_apps_of_def
        app_weights_of_def example_profile_def draw_duration_def avg_switches_def randint_def
        clip_duration_def get_window_title_def WINDOW_TITLES_def choice_def maybe_switch_def
        random_unit_def Let_def)
  have h1: "productive (apps example_profile) @ neutral (apps example_profile)
            @ unproductive (apps example_profile) \<noteq> []"
    by (simp add: example_profile_def)
  have h2: "\<forall>b \<in> set ?bs. s_start ?ws \<le> b_start b \<and> b_start b \<le> b_end b \<and> b_end b \<le> s_end ?ws"
    by simp
  have h3: "sorted (map b_start ?bs)" by simp
  have h4: "s_end ?ws - s_start ?ws < 86400" by simp
  from activity_coverage[OF h1 h2 h3 h4, of ?g] run
  have "(\<Union>a \<in> set ?acts. activity_span a) \<union> (\<Union>b \<in> set ?bs. break_span b)
          = {s_start ?ws ..< s_end ?ws}"
    by auto
  with run show ?thesis by simp
qed

subsection \<open>The scenario of one weekday\<close>

lemma card_interval_minus:
  assumes "s \<le> ls" "ls \<le> le" "le \<le> (e::int)"
  shows "int (card ({s..<e} - {ls..<le})) = (e - s) - (le - ls)"
proof -
  have eq: "{s..<e} - {ls..<le} = {s..<ls} \<union> {le..<e}" using assms by auto
  have "card ({s..<ls} \<union> {le..<e}) = card {s..<ls} + card {le..<e}"
    using assms by (intro card_Un_disjoint) auto
  then show ?thesis unfolding eq using assms by simp
qed

lemma scenario_metrics:
  assumes "status_seconds Active sts = 27000" "status_seconds Idle sts = 0"
    "status_seconds Afk sts = 1800"
  shows "active_seconds (calculate_daily_metrics d sts acts) = 27000 \<and>
         afk_seconds (calculate_daily_metrics d sts acts) = 1800 \<and>
         idle_seconds (calculate_daily_metrics d sts acts) = 0 \<and>
         utilization_ratio (calculate_daily_metrics d sts acts) = 9375 / 10000"
proof -
  have "round4 (of_int 27000 / of_int (27000 + 0 + 1800)) = 9375 / 10000"
    by (simp add: round4_def round_half_even_def)
  then show ?thesis using assms by (simp add: calculate_daily_metrics_def Let_def)
qed

lemma scenario_run:
  assumes wh: "work_hours p = \<lparr>wh_start = (9, 0), wh_end = (17, 0), variance_minutes = 0\<rparr>"
    and lm: "lunch_minutes (afk_behavior p) = (30, 30)"
    and cb: "coffee_breaks (afk_behavior p) = (0, 0)"
    and ap: "productive (apps p) @ neutral (apps p) @ unproductive (apps p) = [''Chrome'']"
    and hn: "hostnames p \<noteq> []"
    and wk: "\<not> is_weekend d"
  shows "\<exists>out g' off.
           generate_user_date p d g = Some (Inr (Some out, g')) \<and>
           8640 \<le> off \<and> off \<le> 14400 \<and>
           day_breaks out = [\<lparr>b_start = midnight d + 32400 + off,
                              b_end = midnight d + 32400 + off + 1800, b_type = Lunch\<rparr>] \<and>
           sum_list (map duration (day_activities out)) = 27000 \<and>
           active_seconds (day_metric out) = 27000 \<and>
           afk_seconds (day_metric out) = 1800 \<and>
           idle_seconds (day_metric out) = 0 \<and>
           utilization_ratio (day_metric out) = 9375 / 10000"
proof -
  let ?s = "midnight d + 32400"
  let ?e = "midnight d + 61200"
  let ?ws = "\<lparr>s_start = ?s, s_end = ?e, s_is_weekend = False\<rparr>"
  from choice_ok[OF hn, of g] obtain h g1 where
    1: "choice (hostnames p) g = Inr (h, g1)" by blast
  from randint_ok[of 0 0 g1] obtain g2 where r1: "randint 0 0 g1 = Inr (0, g2)" by auto
  from randint_ok[of 0 0 g2] obtain g3 where r2: "randint 0 0 g2 = Inr (0, g3)" by auto
  have 2: "generate_work_session p d h g1 = Inr (Some ?ws, g3)"
    using wk wh r1 r2 by (simp add: generate_work_session_def at_clock_def)
  have wd: "work_duration ?ws = 28800" by (simp add: work_duration_def)
  from randint_ok[of 30 30 g3] obtain g4 where r3: "randint 30 30 g3 = Inr (30, g4)" by auto
  from randint_ok[of 8640 14400 g4] obtain off g5 where
    r4: "randint 8640 14400 g4 = Inr (off, g5)" and off: "8640 \<le> off" "off \<le> 14400" by auto
  from randint_ok[of 0 0 g5] obtain g6 where r5: "randint 0 0 g5 = Inr (0, g6)" by auto
  let ?L = "\<lparr>b_start = ?s + off, b_end = ?s + off + 1800, b_type = Lunch\<rparr>"
  have lb: "lunch_break (afk_behavior p) ?ws g3 = Inr ([?L], g5)"
    using r3 r4 by (simp add: lunch_break_def wd lm randint_range_def)
  have 3: "generate_breaks (afk_behavior p) ?ws g3 = Inr ([?L], g6)"
    using lb r5 by (simp add: generate_breaks_def cb randint_range_def)
  have h1: "productive (apps p) @ neutral (apps p) @ unproductive (apps p) \<noteq> []"
    using ap by simp
  have h2: "\<forall>b \<in> set [?L]. s_start ?ws \<le> b_start b \<and> b_start b \<le> b_end b \<and> b_end b \<le> s_end ?ws"
    using off by simp
  have h3: "sorted (map b_start [?L])" by simp
  have h4: "s_end ?ws - s_start ?ws < 86400" by simp
  from window_activities_cover[OF h1 h2 h3 h4, of g6] obtain acts g7 where
    4: "generate_window_activities p ?ws [?L] g6 = Some (Inr (acts, g7))"
    and cov: "covers (s_start ?ws) (s_end ?ws) [?L] acts" by blast
  from cov have ch: "events_chain ?s acts"
    and un: "(\<Union>a \<in> set acts. activity_span a) = {?s..<?e} - {?s + off..<?s + off + 1800}"
    by (simp_all add: covers_def break_span_def)
  have "sum_list (map duration acts) = int (card (\<Union>a \<in> set acts. activity_span a))"
    using events_chain_card[OF ch] by simp
  also have "\<dots> = (?e - ?s) - ((?s + off + 1800) - (?s + off))"
    unfolding un using off by (intro card_interval_minus) simp_all
  finally have sum: "sum_list (map duration acts) = 27000" by simp
  let ?sts = "[\<lparr>status = Active, afk_duration = off, afk_timestamp = ?s\<rparr>,
               \<lparr>status = Afk, afk_duration = 1800, afk_timestamp = ?s + off\<rparr>,
               \<lparr>status = Active, afk_duration = 27000 - off, afk_timestamp = ?s + off + 1800\<rparr>]"
  have 5: "generate_afk_statuses ?ws [?L] acts = ?sts"
    using off by (simp add: generate_afk_statuses_def segment_statuses_def)
  let ?m = "calculate_daily_metrics d ?sts acts"
  have ss: "status_seconds Active ?sts = 27000" "status_seconds Idle ?sts = 0"
    "status_seconds Afk ?sts = 1800"
    by (simp_all add: status_seconds_def)
  have m: "active_seconds ?m = 27000" "afk_seconds ?m = 1800" "idle_seconds ?m = 0"
    "utilization_ratio ?m = 9375 / 10000"
    using scenario_metrics[OF ss, of d acts] by blast+
  let ?out = "\<lparr>day_breaks = [?L], day_activities = acts, day_statuses = ?sts, day_metric = ?m\<rparr>"
  have "generate_user_date p d g = Some (Inr (Some ?out, g7))"
    using 1 2 3 4 5 by (simp add: generate_user_date_def Let_def)
  then show ?thesis using off sum m by (intro exI[of _ ?out] exI[of _ g7] exI[of _ off]) simp
qed


text \<open>
  Claim C1, as stated, fails on its numbers: 09:00 to 17:00 is eight hours, so the events
  sum to 27000 seconds (7.5 hours), the active total is 27000 and the ratio is
  27000 / 28800 = 0.9375, not 25200 and 0.9333.
\<close>

theorem scenario_active_seconds:
  "day_summary (generate_user_date scenario_profile monday scenario_draws)
     = Some ([\<lparr>b_start = 41040, b_end = 42840, b_type = Lunch\<rparr>], 27000,
             \<lparr>active_seconds = 27000, idle_seconds = 0, afk_seconds = 1800, app_switches = 0,
              utilization_ratio = 9375 / 10000, dm_timestamp = 86399\<rparr>) \<and>
   (27000::int) \<noteq> 25200 \<and> (9375 / 10000 :: rat) \<noteq> 9333 / 10000"
  by (simp add: activity_loop.simps generate_window_activities_def choices_def all_apps_of_def
      app_weights_of_def scenario_profile_def draw_duration_def avg_switches_def randint_def
      clip_duration_def get_window_title_def WINDOW_TITLES_def choice_def maybe_switch_def
      random_unit_def Let_def day_summary_def generate_user_date_def generate_work_session_def
      monday_def is_weekend_def at_clock_def generate_breaks_def lunch_break_def work_duration_def
      randint_range_def generate_afk_statuses_def segment_statuses_def calculate_daily_metrics_def
      status_seconds_def round4_def round_half_even_def scenario_draws_def)

text \<open>
  Claim C1, amended. For a profile with work hours 09:00-17:00, variance 0, lunch range
  [30, 30], zero coffee breaks, the single application Chrome and at least one host name,
  one weekday date yields, whatever is drawn, exactly one break, a lunch of 1800 seconds
  that starts between 8640 and 14400 seconds into the session, events whose durations
  sum to 27000 seconds (7.5 hours), and a daily record with 27000 active seconds, 1800
  afk seconds, 0 idle seconds and a utilization ratio of 0.9375.
\<close>

theorem scenario_day:
  assumes "work_hours p = \<lparr>wh_start = (9, 0), wh_end = (17, 0), variance_minutes = 0\<rparr>"
    and "lunch_minutes (afk_behavior p) = (30, 30)"
    and "coffee_breaks (afk_behavior p) = (0, 0)"
    and "productive (apps p) @ neutral (apps p) @ unproductive (apps p) = [''Chrome'']"
    and "hostnames p \<noteq> []"
    and "\<not> is_weekend d"
  shows "\<exists>out g' off.
           generate_user_date p d g = Some (Inr (Some out, g')) \<and>
           8640 \<le> off \<and> off \<le> 14400 \<and>
           day_breaks out = [\<lparr>b_start = midnight d + 32400 + off,
                              b_end = midnight d + 32400 + off + 1800, b_type = Lunch\<rparr>] \<and>
           sum_list (map duration (day_activities out)) = 27000 \<and>
           active_seconds (day_metric out) = 27000 \<and>
           afk_seconds (day_metric out) = 1800 \<and>
           idle_seconds (day_metric out) = 0 \<and>
           utilization_ratio (day_metric out) = 9375 / 10000"
  using assms by (rule scenario_run)

theorem scenario_day_witness:
  "\<exists>out g'.
     generate_user_date scenario_profile monday scenario_draws = Some (Inr (Some out, g')) \<and>
     length (day_breaks out) = 1 \<and>
     sum_list (map duration (day_activities out)) = 27000 \<and>
     active_seconds (day_metric out) = 27000 \<and>
     afk_seconds (day_metric out) = 1800 \<and>
     idle_seconds (day_metric out) = 0 \<and>
     utilization_ratio (day_metric out) = 9375 / 10000"
proof -
  have h1: "work_hours scenario_profile
              = \<lparr>wh_start = (9, 0), wh_end = (17, 0), variance_minutes = 0\<rparr>"
    and h2: "lunch_minutes (afk_behavior scenario_profile) = (30, 30)"
    and h3: "coffee_breaks (afk_behavior scenario_profile) = (0, 0)"
    and h4: "productive (apps scenario_profile) @ neutral (apps scenario_profile)
             @ unproductive (apps scenario_profile) = [''Chrome'']"
    and h5: "hostnames scenario_profile \<noteq> []"
    by (simp_all add: scenario_profile_def)
  have h6: "\<not> is_weekend monday" by (simp add: is_weekend_def monday_def)
  from scenario_day[OF h1 h2 h3 h4 h5 h6, of scenario_draws] obtain out g' off where
    "generate_user_date scenario_profile monday scenario_draws = Some (Inr (Some out, g'))"
    "day_breaks out = [\<lparr>b_start = midnight monday + 32400 + off,
                        b_end = midnight monday + 32400 + off + 1800, b_type = Lunch\<rparr>]"
    "sum_list (map duration (day_activities out)) = 27000"
    "active_seconds (day_metric out) = 27000"
    "afk_seconds (day_metric out) = 1800"
    "idle_seconds (day_metric out) = 0"
    "utilization_ratio (day_metric out) = 9375 / 10000"
    by blast
  then show ?thesis by (intro exI[of _ out] exI[of _ g']) simp
qed

end
